theory Spec2Isabelle
  imports Main "HOL-Library.AList"
begin

section \<open>The record codec of mautrix: serializable.py\<close>

text \<open>
  A shallow embedding of \<^verbatim>\<open>src/mautrix/client/api/types/util/serializable.py\<close>.
  Python values, type objects and attrs field descriptors are one family of mutually
  recursive datatypes, because a Python object carries its class and an attrs class carries
  the default values of its fields.

  Conventions of the embedding:
  \<^item> A Python \<^verbatim>\<open>dict\<close> with string keys is an association list in insertion order; item
    assignment is \<open>dict_set\<close> (an existing key keeps its position, a new key goes last).
  \<^item> An attrs instance is the name of its class together with the list of its fields, each
    paired with the value of the attribute of that name, and the instance attribute
    \<^verbatim>\<open>unrecognized_\<close> (\<open>None\<close> is the class attribute of \<^verbatim>\<open>SerializableAttrs\<close>).
  \<^item> \<open>PNothing\<close> is the sentinel \<^verbatim>\<open>attr.NOTHING\<close>: the \<^verbatim>\<open>default\<close> of a field declared
    without a default.
  \<^item> Type objects are finite trees, so a record type never contains itself.
  \<^item> Floats, tuples and sets are left out of the value type; dictionary keys are strings.
  \<^item> What \<^verbatim>\<open>Optional[T]\<close>, \<^verbatim>\<open>Union[...]\<close> and \<^verbatim>\<open>List[T]\<close> are depends on the typing module.
    In Python 3.6 \<^verbatim>\<open>type(Optional[T]) == type(Union)\<close> holds and a generic alias is a
    class: these objects are \<open>TOptional\<close>, \<open>TUnion\<close>, \<open>TList\<close>, \<open>TSet\<close> and \<open>TDict\<close>. From
    Python 3.7 on none of them is a class and none has the type of \<^verbatim>\<open>Union\<close>: every such
    object is \<open>TAlias\<close>, for which the test of line 147 is false and \<^verbatim>\<open>issubclass\<close> at line
    150 raises \<^verbatim>\<open>TypeError\<close>.
  \<^item> Left out of the type objects: \<^verbatim>\<open>NewType\<close> aliases (line 142 unwraps them) and
    \<^verbatim>\<open>Serializable\<close> classes other than enumerations and attrs classes (line 151 hands
    the value to their own \<^verbatim>\<open>deserialize\<close>). Left out of the fields: attrs factories,
    converters and validators; a default is a value.
\<close>

subsection \<open>Values, types, fields\<close>

datatype pyval =
    PNone
  | PNothing
  | PBool bool
  | PInt int
  | PStr string
  | PList "pyval list"
  | PDict "(string \<times> pyval) list"
  | PEnum string string
  | PAttrs string "(field \<times> pyval) list" "(string \<times> pyval) list option"
  | PLst "pyval list"
  | PObj "(string \<times> pyval) list"
and ty =
    TAttrs string "field list"
  | TAny
  | TOptional ty
  | TUnion
  | TEnum string "string list"
  | TList ty
  | TSet ty
  | TDict ty ty
  | TPlain
  | TAlias
and field =
    Field (name: string) (json_meta: "string option") (ftype: ty) (default: pyval)
          (flatten: bool) (ignore_errors: bool) (omitempty: bool) (omitdefault: bool)

text \<open>
  \<open>PEnum c s\<close> is the member of the \<^verbatim>\<open>SerializableEnum\<close> subclass \<open>c\<close> whose value is \<open>s\<close>.
  \<open>PLst\<close> and \<open>PObj\<close> are the wrappers \<^verbatim>\<open>Lst\<close> and \<^verbatim>\<open>Obj\<close> of the module \<^verbatim>\<open>.obj\<close> (see
  below).
  \<open>TOptional t\<close> is \<^verbatim>\<open>Optional[T]\<close> and \<open>TUnion\<close> any other \<^verbatim>\<open>Union\<close>, as objects of the
  typing module of Python 3.6; \<open>TAlias\<close> is any \<^verbatim>\<open>Optional\<close>, \<^verbatim>\<open>Union\<close> or generic alias as an
  object of the typing module of Python 3.7 and later. \<open>TPlain\<close> is any class that is
  neither an attrs class nor \<^verbatim>\<open>Serializable\<close> nor a list, set or dict (\<^verbatim>\<open>int\<close>, \<^verbatim>\<open>str\<close>, ...).
  The flags of a field are its metadata entries with the defaults the source reads them
  with: \<^verbatim>\<open>flatten\<close> False, \<^verbatim>\<open>ignore_errors\<close> False, \<^verbatim>\<open>omitempty\<close> True,
  \<^verbatim>\<open>omitdefault\<close> False.
\<close>

text \<open>
  Modelled from the spec: the classes \<^verbatim>\<open>Lst\<close> and \<^verbatim>\<open>Obj\<close> of the module \<^verbatim>\<open>.obj\<close>, which
  \<^verbatim>\<open>serializable.py\<close> imports, are not among the sources. The spec (4.3, step 9) has the
  decoder ``wrap'' a list or a map ``as a generic list-like/object-like passthrough
  value'': \<open>PLst xs\<close> and \<open>PObj d\<close> are these wrappers around the list \<open>xs\<close> and the map \<open>d\<close>.
  The encoder returns them as they are, they compare by what they hold, and a \<open>PLst\<close> is
  false when it is empty, as a list is.
\<close>

type_synonym pydict = "(string \<times> pyval) list"

datatype pyerr =
    TypeError
  | ValueError
  | KeyError
  | AttributeError
  | EnumValueError pyval string
  | SerializerError string "pyerr option"

text \<open>
  \<open>EnumValueError v c\<close> is the \<^verbatim>\<open>ValueError\<close> that the lookup \<^verbatim>\<open>c(v)\<close> of the standard
  \<^verbatim>\<open>Enum\<close> raises (``v is not a valid c''). \<open>SerializerError msg cause\<close> carries the
  message and the exception it was raised \<^verbatim>\<open>from\<close>.
\<close>

subsection \<open>Dictionaries\<close>

definition dict_set :: "(string \<times> 'v) list \<Rightarrow> string \<Rightarrow> 'v \<Rightarrow> (string \<times> 'v) list" where
  "dict_set d k v = AList.update k v d"

definition dict_update :: "(string \<times> 'v) list \<Rightarrow> (string \<times> 'v) list \<Rightarrow> (string \<times> 'v) list" where
  "dict_update d other = fold (\<lambda>(k, v) acc. dict_set acc k v) other d"

definition dict_of_pairs :: "(string \<times> 'v) list \<Rightarrow> (string \<times> 'v) list" where
  "dict_of_pairs pairs = dict_update [] pairs"

subsection \<open>Field tables\<close>

definition json_key :: "field \<Rightarrow> string" where
  "json_key f = (case json_meta f of None \<Rightarrow> name f | Some k \<Rightarrow> k)"

text \<open>\<^verbatim>\<open>_fields(attrs_type, only_if_flatten)\<close>, lines 81-83.\<close>

definition fields_of :: "field list \<Rightarrow> bool option \<Rightarrow> (string \<times> field) list" where
  "fields_of fs only_if_flatten =
     map (\<lambda>f. (json_key f, f))
       (filter (\<lambda>f. only_if_flatten = None \<or> Some (flatten f) = only_if_flatten) fs)"

subsection \<open>Defaults\<close>

text \<open>
  \<^verbatim>\<open>immutable = (int, str, float, bool, type(None))\<close> and \<^verbatim>\<open>_safe_default\<close>, lines 86-92.
  In this value model a copy is equal to its original; the sharing that \<^verbatim>\<open>copy.copy\<close>
  leaves is the subject of the store model further down.
\<close>

fun immutable :: "pyval \<Rightarrow> bool" where
  "immutable PNone = True"
| "immutable (PBool _) = True"
| "immutable (PInt _) = True"
| "immutable (PStr _) = True"
| "immutable _ = False"

definition copy_copy :: "pyval \<Rightarrow> pyval" where
  "copy_copy val = val"

definition safe_default :: "pyval \<Rightarrow> pyval" where
  "safe_default val = (if immutable val then val else copy_copy val)"

subsection \<open>Enumerations\<close>

text \<open>\<^verbatim>\<open>SerializableEnum.serialize\<close> and \<^verbatim>\<open>SerializableEnum.deserialize\<close>, lines 57-65.\<close>

definition enum_lookup :: "string \<Rightarrow> string list \<Rightarrow> pyval \<Rightarrow> pyerr + pyval" where
  "enum_lookup cn vals raw =
     (case raw of
        PStr s \<Rightarrow> if s \<in> set vals then Inr (PEnum cn s) else Inl (EnumValueError raw cn)
      | _ \<Rightarrow> Inl (EnumValueError raw cn))"

definition enum_deserialize :: "string \<Rightarrow> string list \<Rightarrow> pyval \<Rightarrow> pyerr + pyval" where
  "enum_deserialize cn vals raw =
     (case enum_lookup cn vals raw of
        Inr v \<Rightarrow> Inr v
      | Inl e \<Rightarrow> Inl (SerializerError [] (Some e)))"

fun enum_serialize :: "pyval \<Rightarrow> pyval" where
  "enum_serialize (PEnum cn s) = PStr s"
| "enum_serialize v = v"

subsection \<open>Construction of an attrs instance\<close>

text \<open>
  The generated \<^verbatim>\<open>__init__\<close> of an attrs class, called with keyword arguments
  (\<^verbatim>\<open>attrs_type(**new_items)\<close>, line 114). The argument of a field is named as the field
  with its leading underscores stripped (\<open>init_name\<close>): the argument of a private attribute
  \<^verbatim>\<open>_x\<close> is \<^verbatim>\<open>x\<close>. A keyword that is the argument of no field is a \<^verbatim>\<open>TypeError\<close>. A supplied
  argument is stored as it is, an absent one takes the field's default, and an absent
  argument of a field without default is a \<^verbatim>\<open>TypeError\<close>.
\<close>

definition init_name :: "field \<Rightarrow> string" where
  "init_name f = dropWhile (\<lambda>c. c = CHR ''_'') (name f)"

fun init_args :: "field list \<Rightarrow> pydict \<Rightarrow> (field \<times> pyval) list option" where
  "init_args [] kwargs = Some []"
| "init_args (f # fs) kwargs =
     (case (case map_of kwargs (init_name f) of
              Some v \<Rightarrow> Some v
            | None \<Rightarrow> if default f = PNothing then None else Some (default f)) of
        None \<Rightarrow> None
      | Some v \<Rightarrow> map_option ((#) (f, v)) (init_args fs kwargs))"

definition attrs_init :: "string \<Rightarrow> field list \<Rightarrow> pydict \<Rightarrow> pyerr + pyval" where
  "attrs_init cn fs kwargs =
     (if list_all (\<lambda>k. k \<in> set (map init_name fs)) (map fst kwargs) then
        (case init_args fs kwargs of
           None \<Rightarrow> Inl TypeError
         | Some fvs \<Rightarrow> Inr (PAttrs cn fvs None))
      else Inl TypeError)"

fun set_unrecognized :: "pyval \<Rightarrow> pydict \<Rightarrow> pyval" where
  "set_unrecognized (PAttrs cn fvs u) unrecognized = PAttrs cn fvs (Some unrecognized)"
| "set_unrecognized v unrecognized = v"

subsection \<open>Decoding\<close>

fun truthy :: "pyval \<Rightarrow> bool" where
  "truthy PNone = False"
| "truthy (PBool b) = b"
| "truthy (PInt i) = (i \<noteq> 0)"
| "truthy (PStr s) = (s \<noteq> [])"
| "truthy (PList xs) = (xs \<noteq> [])"
| "truthy (PDict d) = (d \<noteq> [])"
| "truthy (PLst xs) = (xs \<noteq> [])"
| "truthy _ = True"

definition missing_msg :: "string \<Rightarrow> string \<Rightarrow> string" where
  "missing_msg field_name cn = ''Missing value for required key '' @ field_name @ '' in '' @ cn"

definition unknown_msg :: string where
  "unknown_msg = ''Unknown serialization error''"

text \<open>
  Line 153, 156 and 159 call the builtin \<^verbatim>\<open>getattr\<close> with a keyword argument
  (\<^verbatim>\<open>getattr(cls, "__args__", default=(None,))\<close>). The builtin takes positional arguments
  only, so the call itself raises \<^verbatim>\<open>TypeError\<close> before the comprehension that follows it
  is evaluated.
\<close>

definition getattr_kw_default :: "pyerr + ty list" where
  "getattr_kw_default = Inl TypeError"

lemma size_list_filter_le: "size_list g (filter P xs) \<le> size_list g xs"
  by (induction xs) auto

lemma map_of_dict_set_mem:
  "map_of (dict_set d k v) k' = Some v' \<Longrightarrow> (k', v') \<in> insert (k, v) (set d)"
  by (auto simp: dict_set_def update_conv' split: if_splits dest: map_of_SomeD)

lemma set_dict_set_subset: "set (dict_set d k v) \<subseteq> insert (k, v) (set d)"
  unfolding dict_set_def by (induction d) auto

lemma set_dict_update_subset: "set (dict_update d other) \<subseteq> set d \<union> set other"
proof (induction other arbitrary: d)
  case Nil
  then show ?case by (simp add: dict_update_def)
next
  case (Cons p ps)
  obtain k v where p: "p = (k, v)" by (cases p)
  have "set (dict_update (dict_set d k v) ps) \<subseteq> set (dict_set d k v) \<union> set ps"
    using Cons.IH by blast
  moreover have "set (dict_set d k v) \<subseteq> insert (k, v) (set d)"
    by (rule set_dict_set_subset)
  ultimately show ?case
    unfolding p by (auto simp: dict_update_def)
qed

definition fields_table :: "field list \<Rightarrow> (string \<times> field) list" where
  "fields_table fs = dict_of_pairs (fields_of fs (Some False))"

lemma fields_table_mem: "map_of (fields_table fs) key = Some f \<Longrightarrow> f \<in> set fs"
proof -
  assume "map_of (fields_table fs) key = Some f"
  then have "(key, f) \<in> set (fields_table fs)" by (rule map_of_SomeD)
  then have "(key, f) \<in> set (fields_of fs (Some False))"
    using set_dict_update_subset [of "[]" "fields_of fs (Some False)"]
    by (auto simp: fields_table_def dict_of_pairs_def)
  then show ?thesis by (auto simp: fields_of_def)
qed

lemma size_field_mem: "f \<in> set fs \<Longrightarrow> size f \<le> size_list size fs"
  by (induction fs) auto

lemma flatten_fields_size:
  "size_list size (map snd (fields_of fs sel)) \<le> size_list size fs"
  by (simp add: fields_of_def comp_def size_list_filter_le)

lemma size_ftype_lt: "size (ftype f) < size f"
  by (cases f) simp

lemma fields_table_size_lt:
  "map_of (fields_table fs) key = Some f \<Longrightarrow> size (ftype f) < size_list size fs"
proof -
  assume "map_of (fields_table fs) key = Some f"
  then have "f \<in> set fs" by (rule fields_table_mem)
  then have "size f \<le> size_list size fs" by (rule size_field_mem)
  then show ?thesis using size_ftype_lt [of f] by linarith
qed

lemma size_ftype_lt_add: "size (ftype f) < Suc (size f + n)"
  using size_ftype_lt [of f] by linarith

lemma flatten_fields_size_disj:
  "size_list (size \<circ> snd) (fields_of fs sel) < size_list size fs \<or>
   size_list (size \<circ> snd) (fields_of fs sel) = size_list size fs"
  using flatten_fields_size [of fs sel] by (simp add: le_less)

text \<open>
  The decoder, lines 95-165. The five functions are mutually recursive, on the type:
  \<^item> \<open>deserialize\<close> is \<^verbatim>\<open>_deserialize\<close> (lines 138-165). A \<^verbatim>\<open>Union\<close> of Python 3.6 that is
    not \<^verbatim>\<open>Optional[T]\<close> leaves the \<^verbatim>\<open>if\<close> of line 148 without returning and reaches
    lines 161-165, as a plain class does. For a typing object of Python 3.7 or later
    (\<open>TAlias\<close>) line 150 raises \<^verbatim>\<open>TypeError\<close>.
  \<^item> \<open>try_deserialize\<close> is \<^verbatim>\<open>_try_deserialize\<close> (lines 126-135). Where an error is ignored
    the function ends without a \<^verbatim>\<open>return\<close>, so its result is \<^verbatim>\<open>None\<close>. An
    \<^verbatim>\<open>AttributeError\<close> is not among the exceptions it catches.
  \<^item> \<open>dict_to_attrs\<close> is \<^verbatim>\<open>_dict_to_attrs\<close> (lines 95-123); \<open>flatten_items\<close> is the dict
    comprehension of lines 99-101, \<open>fields_table\<close> the dict of line 102, and \<open>keyed_items\<close>
    the loop of lines 103-110, which carries \<^verbatim>\<open>new_items\<close> and \<^verbatim>\<open>unrecognized\<close>.
    \<^verbatim>\<open>data.items()\<close> on a value that is not a dict is an \<^verbatim>\<open>AttributeError\<close>.
\<close>

function deserialize :: "ty \<Rightarrow> pyval \<Rightarrow> pyval \<Rightarrow> pyerr + pyval"
  and try_deserialize :: "ty \<Rightarrow> pyval \<Rightarrow> pyval \<Rightarrow> bool \<Rightarrow> pyerr + pyval"
  and dict_to_attrs :: "string \<Rightarrow> field list \<Rightarrow> pyval \<Rightarrow> pyval \<Rightarrow> bool \<Rightarrow> pyerr + pyval"
  and flatten_items :: "field list \<Rightarrow> pyval \<Rightarrow> pydict \<Rightarrow> pyerr + pydict"
  and keyed_items :: "field list \<Rightarrow> pydict \<Rightarrow> pydict \<times> pydict \<Rightarrow> pyerr + pydict \<times> pydict"
where
  "deserialize cls val dflt =
     (if val = PNone then Inr (safe_default dflt)
      else case cls of
        TAttrs cn fs \<Rightarrow> dict_to_attrs cn fs val dflt True
      | TAny \<Rightarrow> Inr val
      | TOptional t \<Rightarrow> deserialize t val dflt
      | TEnum cn vals \<Rightarrow> enum_deserialize cn vals val
      | TList t \<Rightarrow> (case getattr_kw_default of Inl e \<Rightarrow> Inl e | Inr _ \<Rightarrow> Inl TypeError)
      | TSet t \<Rightarrow> (case getattr_kw_default of Inl e \<Rightarrow> Inl e | Inr _ \<Rightarrow> Inl TypeError)
      | TDict kt vt \<Rightarrow> (case getattr_kw_default of Inl e \<Rightarrow> Inl e | Inr _ \<Rightarrow> Inl TypeError)
      | TAlias \<Rightarrow> Inl TypeError
      | _ \<Rightarrow> (case val of
                PList xs \<Rightarrow> Inr (PLst xs)
              | PDict d \<Rightarrow> Inr (PObj d)
              | _ \<Rightarrow> Inr val))"
| "try_deserialize cls val dflt ignore =
     (case deserialize cls val dflt of
        Inr v \<Rightarrow> Inr v
      | Inl (SerializerError msg cause) \<Rightarrow>
          if \<not> ignore then Inl (SerializerError msg cause) else Inr PNone
      | Inl AttributeError \<Rightarrow> Inl AttributeError
      | Inl e \<Rightarrow> if \<not> ignore then Inl (SerializerError unknown_msg (Some e)) else Inr PNone)"
| "dict_to_attrs cn fs data0 dflt default_if_empty =
     (let data = (if truthy data0 then data0 else PDict []) in
      case flatten_items (map snd (fields_of fs (Some True))) data [] of
        Inl e \<Rightarrow> Inl e
      | Inr flat_items \<Rightarrow>
         (case data of
            PDict items \<Rightarrow>
              (case keyed_items fs items (flat_items, []) of
                 Inl e \<Rightarrow> Inl e
               | Inr (new_items, unrecognized) \<Rightarrow>
                   if length new_items = 0 \<and> default_if_empty then Inr (safe_default dflt)
                   else (case attrs_init cn fs new_items of
                           Inl e \<Rightarrow>
                             (case find (\<lambda>(jk, f). jk \<notin> fst ` set new_items) (fields_of fs None) of
                                Some (jk, f) \<Rightarrow> Inl (SerializerError (missing_msg (name f) cn) (Some e))
                              | None \<Rightarrow> Inl (SerializerError unknown_msg (Some e)))
                         | Inr obj \<Rightarrow>
                             Inr (if length unrecognized > 0
                                  then set_unrecognized obj unrecognized else obj)))
          | _ \<Rightarrow> Inl AttributeError))"
| "flatten_items [] data new_items = Inr new_items"
| "flatten_items (f # fs) data new_items =
     (case try_deserialize (ftype f) data (default f) (ignore_errors f) of
        Inl e \<Rightarrow> Inl e
      | Inr v \<Rightarrow> flatten_items fs data (dict_set new_items (name f) v))"
| "keyed_items fs [] acc = Inr acc"
| "keyed_items fs ((key, val) # rest) (new_items, unrecognized) =
     (case map_of (fields_table fs) key of
        None \<Rightarrow> keyed_items fs rest (new_items, dict_set unrecognized key val)
      | Some f \<Rightarrow>
         (case try_deserialize (ftype f) val (default f) (ignore_errors f) of
            Inl e \<Rightarrow> Inl e
          | Inr v \<Rightarrow> keyed_items fs rest (dict_set new_items (name f) v, unrecognized)))"
  by pat_completeness auto
termination
proof (relation "measures
   [\<lambda>x. case x of
        Inl (Inl (cls, _)) \<Rightarrow> size cls
      | Inl (Inr (cls, _)) \<Rightarrow> size cls
      | Inr (Inl (_, fs, _)) \<Rightarrow> size_list size fs
      | Inr (Inr (Inl (fs, _))) \<Rightarrow> size_list size fs
      | Inr (Inr (Inr (fs, _))) \<Rightarrow> size_list size fs,
    \<lambda>x. case x of
        Inl (Inl _) \<Rightarrow> 0
      | Inl (Inr _) \<Rightarrow> 1
      | Inr (Inl _) \<Rightarrow> 1
      | Inr (Inr _) \<Rightarrow> (0::nat),
    \<lambda>x. case x of
        Inr (Inr (Inr (_, items, _))) \<Rightarrow> length items
      | _ \<Rightarrow> 0]", goal_cases)
  case 1 show ?case by simp
next
  case 2 then show ?case by simp
next
  case 3 then show ?case by simp
next
  case 4 then show ?case by simp
next
  case 5 show ?case by (simp add: flatten_fields_size_disj)
next
  case 6 then show ?case by simp
next
  case 7 show ?case by (simp add: size_ftype_lt_add)
next
  case 8 then show ?case by simp
next
  case 9 then show ?case by simp
next
  case 10 then show ?case by (simp add: fields_table_size_lt)
next
  case 11 then show ?case by simp
qed

declare deserialize.simps [simp del] try_deserialize.simps [simp del] dict_to_attrs.simps [simp del]

subsection \<open>Equality of values\<close>

text \<open>
  Python's \<^verbatim>\<open>==\<close> on the modelled values: \<^verbatim>\<open>True == 1\<close>, dictionaries compare without
  regard to order, an attrs instance compares its class and its field values (the
  attribute \<^verbatim>\<open>unrecognized_\<close> is not a field, so it is not compared), enumeration members
  compare by identity.
\<close>

function py_eq :: "pyval \<Rightarrow> pyval \<Rightarrow> bool"
  and py_eq_list :: "pyval list \<Rightarrow> pyval list \<Rightarrow> bool"
  and py_eq_items :: "pydict \<Rightarrow> pydict \<Rightarrow> bool"
  and py_eq_attrs :: "(field \<times> pyval) list \<Rightarrow> (field \<times> pyval) list \<Rightarrow> bool"
where
  "py_eq a b =
     (case a of
        PBool x \<Rightarrow> (case b of PBool y \<Rightarrow> x = y | PInt j \<Rightarrow> (if x then 1 else 0) = j | _ \<Rightarrow> False)
      | PInt i \<Rightarrow> (case b of PInt j \<Rightarrow> i = j | PBool y \<Rightarrow> i = (if y then 1 else 0) | _ \<Rightarrow> False)
      | PList xs \<Rightarrow> (case b of PList ys \<Rightarrow> py_eq_list xs ys | _ \<Rightarrow> False)
      | PDict d \<Rightarrow> (case b of PDict e \<Rightarrow> length d = length e \<and> py_eq_items d e | _ \<Rightarrow> False)
      | PAttrs cn fvs u \<Rightarrow>
          (case b of PAttrs cn' fvs' u' \<Rightarrow> cn = cn' \<and> py_eq_attrs fvs fvs' | _ \<Rightarrow> False)
      | _ \<Rightarrow> a = b)"
| "py_eq_list [] ys = (ys = [])"
| "py_eq_list (x # xs) ys = (case ys of [] \<Rightarrow> False | y # ys' \<Rightarrow> py_eq x y \<and> py_eq_list xs ys')"
| "py_eq_items [] e = True"
| "py_eq_items ((k, v) # d) e =
     (case map_of e k of None \<Rightarrow> False | Some w \<Rightarrow> py_eq v w \<and> py_eq_items d e)"
| "py_eq_attrs [] gs = (gs = [])"
| "py_eq_attrs ((f, v) # fvs) gs =
     (case gs of [] \<Rightarrow> False | (g, w) # gs' \<Rightarrow> f = g \<and> py_eq v w \<and> py_eq_attrs fvs gs')"
  by pat_completeness auto
termination
  by (relation "measure (\<lambda>x. case x of
        Inl (Inl (a, _)) \<Rightarrow> size a
      | Inl (Inr (xs, _)) \<Rightarrow> size_list size xs
      | Inr (Inl (d, _)) \<Rightarrow> size_list (size_prod (\<lambda>_. 0) size) d
      | Inr (Inr (fvs, _)) \<Rightarrow> size_list (size_prod size size) fvs)") auto

declare py_eq.simps [simp del]

subsection \<open>Encoding\<close>

text \<open>
  \<^verbatim>\<open>_serialize\<close> (lines 193-202) and \<^verbatim>\<open>_attrs_to_dict\<close> (lines 168-190). \<open>encode_field\<close> is
  the body of the loop of \<^verbatim>\<open>_attrs_to_dict\<close> for one field: it returns the dictionary
  unchanged where the source says \<^verbatim>\<open>continue\<close>.
\<close>

lemma size_default_lt: "size (default f) < size f"
  by (cases f) simp

lemma size_field_pos: "0 < size (f :: field)"
  by (cases f) simp

function serialize :: "pyval \<Rightarrow> pyval"
  and serialize_list :: "pyval list \<Rightarrow> pyval list"
  and serialize_items :: "pydict \<Rightarrow> pydict \<Rightarrow> pydict"
  and attrs_to_dict :: "(field \<times> pyval) list \<Rightarrow> pydict option \<Rightarrow> pydict"
  and fields_loop :: "(field \<times> pyval) list \<Rightarrow> pydict \<Rightarrow> pydict"
  and encode_field :: "field \<Rightarrow> pyval \<Rightarrow> pydict \<Rightarrow> pydict"
where
  "serialize val =
     (case val of
        PAttrs cn fvs u \<Rightarrow> PDict (attrs_to_dict fvs u)
      | PList xs \<Rightarrow> PList (serialize_list xs)
      | PDict d \<Rightarrow> PDict (serialize_items d [])
      | PEnum cn s \<Rightarrow> enum_serialize val
      | _ \<Rightarrow> val)"
| "serialize_list [] = []"
| "serialize_list (x # xs) = serialize x # serialize_list xs"
| "serialize_items [] acc = acc"
| "serialize_items ((k, v) # d) acc = serialize_items d (dict_set acc k (serialize v))"
| "attrs_to_dict fvs u =
     (let new_dict = fields_loop fvs [] in
      case u of
        Some unrecognized \<Rightarrow> dict_update new_dict unrecognized
      | None \<Rightarrow> new_dict)"
| "fields_loop [] new_dict = new_dict"
| "fields_loop ((f, v) # fvs) new_dict = fields_loop fvs (encode_field f v new_dict)"
| "encode_field f v new_dict =
     (let json_name = json_key f in
      if json_name = [] then new_dict
      else if v = PNone \<and> omitempty f then new_dict
      else
        let field_val = (if v = PNone then default f else v) in
        if omitdefault f \<and> py_eq field_val (default f) then new_dict
        else
          let serialized = serialize field_val in
          case serialized of
            PDict d \<Rightarrow> if flatten f then dict_update new_dict d
                       else dict_set new_dict json_name serialized
          | _ \<Rightarrow> dict_set new_dict json_name serialized)"
  by pat_completeness auto
termination
proof (relation "measures
   [\<lambda>x. case x of
        Inl (Inl (v)) \<Rightarrow> size v
      | Inl (Inr (Inl xs)) \<Rightarrow> size_list size xs
      | Inl (Inr (Inr (d, _))) \<Rightarrow> size_list (size_prod (\<lambda>_. 0) size) d
      | Inr (Inl (fvs, _)) \<Rightarrow> size_list (size_prod size size) fvs
      | Inr (Inr (Inl (fvs, _))) \<Rightarrow> size_list (size_prod size size) fvs
      | Inr (Inr (Inr (f, v, _))) \<Rightarrow> size f + size v,
    \<lambda>x. case x of
        Inr (Inl _) \<Rightarrow> 1
      | _ \<Rightarrow> (0::nat)]", goal_cases)
  case 1 show ?case by simp
next
  case 2 then show ?case by simp
next
  case 3 then show ?case by simp
next
  case 4 then show ?case by simp
next
  case 5 then show ?case by simp
next
  case 6 then show ?case by simp
next
  case 7 then show ?case by simp
next
  case 8 then show ?case by simp
next
  case 9 then show ?case by simp
next
  case 10 then show ?case by simp
next
  case 11 then show ?case by simp
next
  case 12 then show ?case by (simp add: size_default_lt size_field_pos)
qed

declare serialize.simps [simp del] encode_field.simps [simp del] attrs_to_dict.simps [simp del]

section \<open>The enumeration codec\<close>

text \<open>
  C5. For an enumeration class with bound strings \<open>vals\<close>: decoding a string that is
  not among them fails with a \<open>SerializerError\<close> whose cause is the lookup's
  \<open>ValueError\<close> carrying that raw string; decoding a bound string succeeds with the member
  of that value, encoding the member gives the identical string back, and decoding the
  encoding of a member gives the member.
\<close>

theorem enum_codec_boundary:
  "(s \<notin> set vals \<longrightarrow>
      enum_deserialize cn vals (PStr s) = Inl (SerializerError [] (Some (EnumValueError (PStr s) cn))))
   \<and> (s \<in> set vals \<longrightarrow>
      enum_deserialize cn vals (PStr s) = Inr (PEnum cn s)
      \<and> enum_serialize (PEnum cn s) = PStr s
      \<and> enum_deserialize cn vals (enum_serialize (PEnum cn s)) = Inr (PEnum cn s))"
  by (simp add: enum_deserialize_def enum_lookup_def)

theorem enum_codec_boundary_witness:
  "enum_deserialize ''Format'' [''org.matrix.custom.html'', ''m.text'']  (PStr ''bogus'')
     = Inl (SerializerError [] (Some (EnumValueError (PStr ''bogus'') ''Format'')))
   \<and> enum_deserialize ''Format'' [''org.matrix.custom.html'', ''m.text''] (PStr ''m.text'')
     = Inr (PEnum ''Format'' ''m.text'')
   \<and> enum_serialize (PEnum ''Format'' ''m.text'') = PStr ''m.text''"
  using enum_codec_boundary [of "''bogus''" "[''org.matrix.custom.html'', ''m.text'']" "''Format''"]
        enum_codec_boundary [of "''m.text''" "[''org.matrix.custom.html'', ''m.text'']" "''Format''"]
  by simp

section \<open>Facts about dictionaries\<close>

lemma map_of_dict_set: "map_of (dict_set d k v) = (map_of d)(k \<mapsto> v)"
  by (simp add: dict_set_def update_conv')

lemma dict_update_Nil [simp]: "dict_update d [] = d"
  by (simp add: dict_update_def)

lemma dict_update_Cons [simp]: "dict_update d ((k, v) # ps) = dict_update (dict_set d k v) ps"
  by (simp add: dict_update_def)

lemma map_of_dict_update: "map_of (dict_update d other) = map_of d ++ map_of (rev other)"
proof (induction other arbitrary: d)
  case Nil
  then show ?case by simp
next
  case (Cons p ps)
  obtain k v where p: "p = (k, v)" by (cases p)
  show ?case
    unfolding p
    by (rule ext) (simp add: Cons.IH map_of_dict_set map_add_def split: option.splits)
qed

lemma map_of_rev_distinct: "distinct (map fst xs) \<Longrightarrow> map_of (rev xs) = map_of xs"
  by (subst map_of_inject_set) (simp_all add: rev_map [symmetric])

lemma map_of_dict_update_distinct:
  "distinct (map fst other) \<Longrightarrow> map_of (dict_update d other) = map_of d ++ map_of other"
  by (simp add: map_of_dict_update map_of_rev_distinct)

lemma distinct_dict_set: "distinct (map fst d) \<Longrightarrow> distinct (map fst (dict_set d k v))"
  by (simp add: dict_set_def distinct_update)

lemma distinct_dict_update: "distinct (map fst d) \<Longrightarrow> distinct (map fst (dict_update d other))"
proof (induction other arbitrary: d)
  case Nil
  then show ?case by simp
next
  case (Cons p ps)
  obtain k v where p: "p = (k, v)" by (cases p)
  show ?case
    unfolding p using Cons.prems by (simp add: Cons.IH distinct_dict_set)
qed

lemma keys_dict_set: "fst ` set (dict_set d k v) = insert k (fst ` set d)"
  by (simp add: dict_set_def dom_update)

lemma dict_set_fresh: "k \<notin> fst ` set d \<Longrightarrow> dict_set d k v = d @ [(k, v)]"
  unfolding dict_set_def by (induction d) auto

lemma dict_update_fresh:
  "distinct (map fst other) \<Longrightarrow> fst ` set other \<inter> fst ` set d = {} \<Longrightarrow>
   dict_update d other = d @ other"
proof (induction other arbitrary: d)
  case Nil
  then show ?case by simp
next
  case (Cons p ps)
  obtain k v where p: "p = (k, v)" by (cases p)
  have fresh: "k \<notin> fst ` set d" using Cons.prems(2) unfolding p by auto
  have "dict_update (d @ [(k, v)]) ps = (d @ [(k, v)]) @ ps"
    using Cons.prems unfolding p by (intro Cons.IH) auto
  then show ?case
    unfolding p by (simp add: dict_set_fresh [OF fresh])
qed

section \<open>Encoding: the unrecognized bucket is merged last\<close>

lemma serialize_PAttrs: "serialize (PAttrs cn fvs u) = PDict (attrs_to_dict fvs u)"
  by (simp add: serialize.simps)

lemma keys_dict_set_order:
  "map fst (dict_set d k v) = map fst d @ (if k \<in> fst ` set d then [] else [k])"
  unfolding dict_set_def by (induction d) auto

lemma keys_dict_update_prefix:
  "take (length d) (map fst (dict_update d other)) = map fst d"
proof (induction other arbitrary: d)
  case Nil
  then show ?case by simp
next
  case (Cons p ps)
  obtain k v where p: "p = (k, v)" by (cases p)
  have len: "length d \<le> length (dict_set d k v)"
    using arg_cong [OF keys_dict_set_order [of d k v], of length] by simp
  have "take (length d) (map fst (dict_update (dict_set d k v) ps))
          = take (length d) (take (length (dict_set d k v)) (map fst (dict_update (dict_set d k v) ps)))"
    using len by (simp add: min_def)
  also have "\<dots> = take (length d) (map fst (dict_set d k v))"
    by (simp only: Cons.IH)
  also have "\<dots> = map fst d"
    by (simp add: keys_dict_set_order)
  finally show ?case
    by (simp add: p)
qed

text \<open>
  C10. On record encode the unrecognized bucket is merged into the output after the loop
  over the declared fields. The encoding of a record with a bucket is a dictionary that,
  as a map, is the output of the loop over all declared fields (the encoding of the same
  record without a bucket) overridden by the bucket: a key of the bucket has the bucket's
  value, whether or not a declared field wrote that key, and every other key has the
  value the declared fields gave it. The keys the declared fields wrote come first, in
  their order.
\<close>

theorem unrecognized_merged_last:
  assumes "distinct (map fst unrecognized)"
  shows "\<exists>out. serialize (PAttrs cn fvs (Some unrecognized)) = PDict out
           \<and> serialize (PAttrs cn fvs None) = PDict (fields_loop fvs [])
           \<and> map_of out = map_of (fields_loop fvs []) ++ map_of unrecognized
           \<and> (map_of unrecognized k = Some v \<longrightarrow> map_of out k = Some v)
           \<and> (k \<notin> fst ` set unrecognized \<longrightarrow> map_of out k = map_of (fields_loop fvs []) k)
           \<and> take (length (fields_loop fvs [])) (map fst out) = map fst (fields_loop fvs [])"
proof (intro exI conjI impI)
  let ?out = "dict_update (fields_loop fvs []) unrecognized"
  show "serialize (PAttrs cn fvs (Some unrecognized)) = PDict ?out"
    by (simp add: serialize_PAttrs attrs_to_dict.simps)
  show "serialize (PAttrs cn fvs None) = PDict (fields_loop fvs [])"
    by (simp add: serialize_PAttrs attrs_to_dict.simps)
  show merged: "map_of ?out = map_of (fields_loop fvs []) ++ map_of unrecognized"
    using assms by (rule map_of_dict_update_distinct)
  show "map_of ?out k = Some v" if "map_of unrecognized k = Some v"
    using that by (simp add: merged)
  show "map_of ?out k = map_of (fields_loop fvs []) k" if "k \<notin> fst ` set unrecognized"
  proof -
    from that have "map_of unrecognized k = None" by (simp add: map_of_eq_None_iff)
    then show ?thesis by (simp add: merged map_add_def)
  qed
  show "take (length (fields_loop fvs [])) (map fst ?out) = map fst (fields_loop fvs [])"
    by (rule keys_dict_update_prefix)
qed

definition ev_a :: field where
  "ev_a = Field ''a'' None TPlain PNothing False False True False"

definition ev_b :: field where
  "ev_b = Field ''b'' None TPlain PNothing False False True False"

theorem unrecognized_merged_last_witness:
  "serialize (PAttrs ''Ev'' [(ev_a, PInt 1), (ev_b, PInt 7)] (Some [(''a'', PInt 2), (''zz'', PInt 9)]))
     = PDict [(''a'', PInt 2), (''b'', PInt 7), (''zz'', PInt 9)]
   \<and> serialize (PAttrs ''Ev'' [(ev_a, PInt 1), (ev_b, PInt 7)] None)
     = PDict [(''a'', PInt 1), (''b'', PInt 7)]
   \<and> fields_loop [(ev_a, PInt 1), (ev_b, PInt 7)] [] = [(''a'', PInt 1), (''b'', PInt 7)]
   \<and> (\<exists>out. serialize (PAttrs ''Ev'' [(ev_a, PInt 1), (ev_b, PInt 7)]
                        (Some [(''a'', PInt 2), (''zz'', PInt 9)])) = PDict out
          \<and> map_of out ''a'' = Some (PInt 2) \<and> map_of out ''b'' = Some (PInt 7)
          \<and> map_of out ''zz'' = Some (PInt 9))"
proof -
  have loop: "fields_loop [(ev_a, PInt 1), (ev_b, PInt 7)] [] = [(''a'', PInt 1), (''b'', PInt 7)]"
    by code_simp
  have enc: "serialize (PAttrs ''Ev'' [(ev_a, PInt 1), (ev_b, PInt 7)]
                (Some [(''a'', PInt 2), (''zz'', PInt 9)]))
     = PDict [(''a'', PInt 2), (''b'', PInt 7), (''zz'', PInt 9)]"
    by code_simp
  have plain: "serialize (PAttrs ''Ev'' [(ev_a, PInt 1), (ev_b, PInt 7)] None)
     = PDict [(''a'', PInt 1), (''b'', PInt 7)]"
    by code_simp
  have "distinct (map fst [(''a'', PInt 2), (''zz'', PInt 9)])" by simp
  from unrecognized_merged_last [OF this, of "''Ev''" "[(ev_a, PInt 1), (ev_b, PInt 7)]" "''a''" "PInt 2"]
  obtain out where out: "serialize (PAttrs ''Ev'' [(ev_a, PInt 1), (ev_b, PInt 7)]
                           (Some [(''a'', PInt 2), (''zz'', PInt 9)])) = PDict out"
    and merged: "map_of out = map_of (fields_loop [(ev_a, PInt 1), (ev_b, PInt 7)] [])
                   ++ map_of [(''a'', PInt 2), (''zz'', PInt 9)]"
    by blast
  from merged [unfolded loop]
  have "map_of out ''a'' = Some (PInt 2) \<and> map_of out ''b'' = Some (PInt 7)
          \<and> map_of out ''zz'' = Some (PInt 9)"
    by simp
  with out enc plain loop show ?thesis by blast
qed

section \<open>Encoding: the omission policies\<close>









section \<open>Decoding: unfolding rules\<close>

lemma deserialize_None [simp]: "deserialize cls PNone dflt = Inr (safe_default dflt)"
  by (simp add: deserialize.simps)

lemma deserialize_TAttrs:
  "val \<noteq> PNone \<Longrightarrow> deserialize (TAttrs cn fs) val dflt = dict_to_attrs cn fs val dflt True"
  by (simp add: deserialize.simps)

lemma deserialize_TAny: "deserialize TAny val dflt = Inr (if val = PNone then safe_default dflt else val)"
  by (simp add: deserialize.simps)

lemma deserialize_TOptional:
  "deserialize (TOptional t) val dflt = deserialize t val dflt"
  by (cases "val = PNone") (simp_all add: deserialize.simps)

lemma deserialize_TEnum:
  "val \<noteq> PNone \<Longrightarrow> deserialize (TEnum cn vals) val dflt = enum_deserialize cn vals val"
  by (simp add: deserialize.simps)

lemma deserialize_TPlain:
  "val \<noteq> PNone \<Longrightarrow> deserialize TPlain val dflt =
     (case val of PList xs \<Rightarrow> Inr (PLst xs) | PDict d \<Rightarrow> Inr (PObj d) | _ \<Rightarrow> Inr val)"
  by (simp add: deserialize.simps)

lemma deserialize_TUnion:
  "val \<noteq> PNone \<Longrightarrow> deserialize TUnion val dflt =
     (case val of PList xs \<Rightarrow> Inr (PLst xs) | PDict d \<Rightarrow> Inr (PObj d) | _ \<Rightarrow> Inr val)"
  by (simp add: deserialize.simps)

lemma deserialize_containers:
  "val \<noteq> PNone \<Longrightarrow> deserialize (TList t) val dflt = Inl TypeError"
  "val \<noteq> PNone \<Longrightarrow> deserialize (TSet t) val dflt = Inl TypeError"
  "val \<noteq> PNone \<Longrightarrow> deserialize (TDict kt vt) val dflt = Inl TypeError"
  by (simp_all add: deserialize.simps getattr_kw_default_def)

lemma try_deserialize_Inr:
  "deserialize cls val dflt = Inr v \<Longrightarrow> try_deserialize cls val dflt ignore = Inr v"
  by (simp add: try_deserialize.simps)

section \<open>Flattened fields\<close>

definition plain_field :: "string \<Rightarrow> pyval \<Rightarrow> bool \<Rightarrow> bool \<Rightarrow> bool \<Rightarrow> field" where
  "plain_field n dflt ie oe od = Field n None TPlain dflt False ie oe od"

definition flat_field :: "string \<Rightarrow> string option \<Rightarrow> ty \<Rightarrow> pyval \<Rightarrow> bool \<Rightarrow> bool \<Rightarrow> bool \<Rightarrow> field" where
  "flat_field n jm t dflt ie oe od = Field n jm t dflt True ie oe od"

lemma xy_inner_decode:
  "dict_to_attrs ''R'' [plain_field ''x'' dx ix ox odx, plain_field ''y'' dy iy oy ody]
     (PDict [(''x'', PInt 1), (''y'', PInt 2)]) dflt die
   = Inr (PAttrs ''R'' [(plain_field ''x'' dx ix ox odx, PInt 1),
                        (plain_field ''y'' dy iy oy ody, PInt 2)] None)"
  by (simp add: dict_to_attrs.simps fields_of_def fields_table_def dict_of_pairs_def
      plain_field_def json_key_def dict_set_def try_deserialize_Inr deserialize_TPlain
      attrs_init_def init_name_def)


lemma xy_inner_try:
  "try_deserialize (TAttrs ''R'' [plain_field ''x'' dx ix ox odx, plain_field ''y'' dy iy oy ody])
      (PDict [(''x'', PInt 1), (''y'', PInt 2)]) dF ign
   = Inr (PAttrs ''R'' [(plain_field ''x'' dx ix ox odx, PInt 1),
                        (plain_field ''y'' dy iy oy ody, PInt 2)] None)"
  by (simp add: try_deserialize_Inr deserialize_TAttrs xy_inner_decode)

lemma fields_table_Nil [simp]: "fields_table [] = []"
  by (simp add: fields_table_def fields_of_def dict_of_pairs_def dict_update_def)

lemma fields_table_flatten [simp]: "flatten f \<Longrightarrow> fields_table (f # fs) = fields_table fs"
  by (simp add: fields_table_def fields_of_def)

lemma flat_field_sel [simp]:
  "flatten (flat_field n jm t dflt ie oe od)"
  "name (flat_field n jm t dflt ie oe od) = n"
  "ftype (flat_field n jm t dflt ie oe od) = t"
  "default (flat_field n jm t dflt ie oe od) = dflt"
  "json_meta (flat_field n jm t dflt ie oe od) = jm"
  "omitdefault (flat_field n jm t dflt ie oe od) = od"
  "omitempty (flat_field n jm t dflt ie oe od) = oe"
  by (simp_all add: flat_field_def)

lemma xy_outer_decode:
  "dict_to_attrs ''S'' [flat_field ''F'' jF (TAttrs ''R'' [plain_field ''x'' dx ix ox odx,
                                            plain_field ''y'' dy iy oy ody]) dF iF oF odF] (PDict [(''x'', PInt 1), (''y'', PInt 2)]) dflt False
   = Inr (PAttrs ''S''
           [(flat_field ''F'' jF (TAttrs ''R'' [plain_field ''x'' dx ix ox odx,
                                               plain_field ''y'' dy iy oy ody]) dF iF oF odF,
             PAttrs ''R'' [(plain_field ''x'' dx ix ox odx, PInt 1),
                           (plain_field ''y'' dy iy oy ody, PInt 2)] None)] (Some [(''x'', PInt 1), (''y'', PInt 2)]))"
  by (simp add: dict_to_attrs.simps fields_of_def xy_inner_try attrs_init_def Let_def dict_set_def
      init_name_def)


lemma xy_inner_out:
  "attrs_to_dict [(plain_field ''x'' dx ix ox odx, PInt 1),
                  (plain_field ''y'' dy iy oy ody, PInt 2)] None
     \<in> {[], [(''x'', PInt 1)], [(''y'', PInt 2)], [(''x'', PInt 1), (''y'', PInt 2)]}"
  by (simp add: attrs_to_dict.simps encode_field.simps plain_field_def json_key_def
      serialize.simps dict_set_def Let_def)

lemma xy_outer_field:
  "encode_field (flat_field ''F'' jF t dF iF oF odF)
      (PAttrs ''R'' [(plain_field ''x'' dx ix ox odx, PInt 1),
                     (plain_field ''y'' dy iy oy ody, PInt 2)] None) []
     \<in> {[], [(''x'', PInt 1)], [(''y'', PInt 2)], [(''x'', PInt 1), (''y'', PInt 2)]}"
proof -
  let ?inner = "[(plain_field ''x'' dx ix ox odx, PInt 1), (plain_field ''y'' dy iy oy ody, PInt 2)]"
  have "encode_field (flat_field ''F'' jF t dF iF oF odF) (PAttrs ''R'' ?inner None) [] = []
        \<or> encode_field (flat_field ''F'' jF t dF iF oF odF) (PAttrs ''R'' ?inner None) []
            = dict_update [] (attrs_to_dict ?inner None)"
    by (simp add: encode_field.simps Let_def serialize_PAttrs)
  moreover have "dict_update [] (attrs_to_dict ?inner None)
     \<in> {[], [(''x'', PInt 1)], [(''y'', PInt 2)], [(''x'', PInt 1), (''y'', PInt 2)]}"
    using xy_inner_out [of dx ix ox odx dy iy oy ody]
    by (elim insertE) (simp_all add: dict_set_def)
  ultimately show ?thesis by auto
qed

lemma xy_outer_out:
  "attrs_to_dict [(flat_field ''F'' jF t dF iF oF odF,
      PAttrs ''R'' [(plain_field ''x'' dx ix ox odx, PInt 1),
                    (plain_field ''y'' dy iy oy ody, PInt 2)] None)]
      (Some [(''x'', PInt 1), (''y'', PInt 2)])
     \<in> {[(''x'', PInt 1), (''y'', PInt 2)], [(''y'', PInt 2), (''x'', PInt 1)]}"
  using xy_outer_field [of jF t dF iF oF odF dx ix ox odx dy iy oy ody]
  by (elim insertE) (simp_all add: attrs_to_dict.simps dict_set_def)


lemma xy_inlined:
  assumes "jF \<noteq> Some []"
    and "\<not> (odF \<and> py_eq (PAttrs ''R'' [(plain_field ''x'' dx ix ox odx, PInt 1),
                                         (plain_field ''y'' dy iy oy ody, PInt 2)] None) dF)"
    and "\<not> (odx \<and> py_eq (PInt 1) dx)" and "\<not> (ody \<and> py_eq (PInt 2) dy)"
  shows "fields_loop [(flat_field ''F'' jF t dF iF oF odF,
            PAttrs ''R'' [(plain_field ''x'' dx ix ox odx, PInt 1),
                          (plain_field ''y'' dy iy oy ody, PInt 2)] None)] []
         = [(''x'', PInt 1), (''y'', PInt 2)]"
proof -
  have inner: "attrs_to_dict [(plain_field ''x'' dx ix ox odx, PInt 1),
                              (plain_field ''y'' dy iy oy ody, PInt 2)] None
                 = [(''x'', PInt 1), (''y'', PInt 2)]"
    using assms(3,4)
    by (simp add: attrs_to_dict.simps encode_field.simps plain_field_def json_key_def
        serialize.simps dict_set_def Let_def)
  have key: "json_key (flat_field ''F'' jF t dF iF oF odF) \<noteq> []"
    using assms(1) by (cases jF) (simp_all add: json_key_def)
  show ?thesis
    using assms(2) key
    by (simp add: encode_field.simps Let_def serialize_PAttrs inner dict_set_def)
qed

text \<open>
  C3. The schema \<open>S\<close> has one field \<open>F\<close>, flattened, whose type is the record
  \<open>R {x, y}\<close> of two plain fields; the defaults and the other flags of the three fields
  are arbitrary.
  \<^item> Decoding \<open>{"x": 1, "y": 2}\<close> gives the record whose \<open>F\<close> is \<open>R(x=1, y=2)\<close>. (Its
    bucket holds \<open>x\<close> and \<open>y\<close> too: the second pass keeps no record of the keys \<open>F\<close> read.)
  \<^item> Encoding that record gives a dictionary with exactly the two items \<open>x: 1\<close> and
    \<open>y: 2\<close>, each key once: no key \<open>F\<close>, no nesting.
  \<^item> The inlining is the work of the flattened field, not of the bucket: where \<open>F\<close> has a
    wire key and no \<open>omitdefault\<close> leaves \<open>F\<close>, \<open>x\<close> or \<open>y\<close> out, the loop over the declared
    fields alone writes \<open>x: 1\<close> and \<open>y: 2\<close> at the top level, so the record encodes to
    \<open>{"x": 1, "y": 2}\<close> without its bucket as well as with it.
\<close>

theorem flatten_merges_never_nests:
  "dict_to_attrs ''S''
      [flat_field ''F'' jF (TAttrs ''R'' [plain_field ''x'' dx ix ox odx,
                                          plain_field ''y'' dy iy oy ody]) dF iF oF odF]
      (PDict [(''x'', PInt 1), (''y'', PInt 2)]) dflt False
     = Inr (PAttrs ''S''
         [(flat_field ''F'' jF (TAttrs ''R'' [plain_field ''x'' dx ix ox odx,
                                             plain_field ''y'' dy iy oy ody]) dF iF oF odF,
           PAttrs ''R'' [(plain_field ''x'' dx ix ox odx, PInt 1),
                         (plain_field ''y'' dy iy oy ody, PInt 2)] None)]
         (Some [(''x'', PInt 1), (''y'', PInt 2)]))
   \<and> (\<exists>out. serialize (PAttrs ''S''
         [(flat_field ''F'' jF (TAttrs ''R'' [plain_field ''x'' dx ix ox odx,
                                             plain_field ''y'' dy iy oy ody]) dF iF oF odF,
           PAttrs ''R'' [(plain_field ''x'' dx ix ox odx, PInt 1),
                         (plain_field ''y'' dy iy oy ody, PInt 2)] None)]
         (Some [(''x'', PInt 1), (''y'', PInt 2)])) = PDict out
       \<and> distinct (map fst out)
       \<and> set out = {(''x'', PInt 1), (''y'', PInt 2)})
   \<and> (jF \<noteq> Some []
        \<and> \<not> (odF \<and> py_eq (PAttrs ''R'' [(plain_field ''x'' dx ix ox odx, PInt 1),
                                            (plain_field ''y'' dy iy oy ody, PInt 2)] None) dF)
        \<and> \<not> (odx \<and> py_eq (PInt 1) dx) \<and> \<not> (ody \<and> py_eq (PInt 2) dy) \<longrightarrow>
        serialize (PAttrs ''S''
          [(flat_field ''F'' jF (TAttrs ''R'' [plain_field ''x'' dx ix ox odx,
                                              plain_field ''y'' dy iy oy ody]) dF iF oF odF,
            PAttrs ''R'' [(plain_field ''x'' dx ix ox odx, PInt 1),
                          (plain_field ''y'' dy iy oy ody, PInt 2)] None)]
          None) = PDict [(''x'', PInt 1), (''y'', PInt 2)]
        \<and> serialize (PAttrs ''S''
          [(flat_field ''F'' jF (TAttrs ''R'' [plain_field ''x'' dx ix ox odx,
                                              plain_field ''y'' dy iy oy ody]) dF iF oF odF,
            PAttrs ''R'' [(plain_field ''x'' dx ix ox odx, PInt 1),
                          (plain_field ''y'' dy iy oy ody, PInt 2)] None)]
          (Some [(''x'', PInt 1), (''y'', PInt 2)])) = PDict [(''x'', PInt 1), (''y'', PInt 2)])"
proof (intro conjI impI)
  let ?inner = "PAttrs ''R'' [(plain_field ''x'' dx ix ox odx, PInt 1),
                              (plain_field ''y'' dy iy oy ody, PInt 2)] None"
  let ?F = "flat_field ''F'' jF (TAttrs ''R'' [plain_field ''x'' dx ix ox odx,
                                               plain_field ''y'' dy iy oy ody]) dF iF oF odF"
  let ?doc = "[(''x'', PInt 1), (''y'', PInt 2)]"
  note enc = xy_outer_out [of jF "TAttrs ''R'' [plain_field ''x'' dx ix ox odx,
                                               plain_field ''y'' dy iy oy ody]" dF iF oF odF dx ix ox odx dy iy oy ody]
  show "dict_to_attrs ''S'' [?F] (PDict ?doc) dflt False = Inr (PAttrs ''S'' [(?F, ?inner)] (Some ?doc))"
    by (rule xy_outer_decode)
  show "\<exists>out. serialize (PAttrs ''S'' [(?F, ?inner)] (Some ?doc)) = PDict out
          \<and> distinct (map fst out) \<and> set out = {(''x'', PInt 1), (''y'', PInt 2)}"
  proof (intro exI conjI)
    show "serialize (PAttrs ''S'' [(?F, ?inner)] (Some ?doc))
            = PDict (attrs_to_dict [(?F, ?inner)] (Some ?doc))"
      by (rule serialize_PAttrs)
    show "distinct (map fst (attrs_to_dict [(?F, ?inner)] (Some ?doc)))"
      using enc by (elim insertE) simp_all
    show "set (attrs_to_dict [(?F, ?inner)] (Some ?doc)) = {(''x'', PInt 1), (''y'', PInt 2)}"
      using enc by (elim insertE) auto
  qed
  assume flags: "jF \<noteq> Some [] \<and> \<not> (odF \<and> py_eq ?inner dF)
        \<and> \<not> (odx \<and> py_eq (PInt 1) dx) \<and> \<not> (ody \<and> py_eq (PInt 2) dy)"
  then have loop: "fields_loop [(?F, ?inner)] [] = ?doc"
    by (intro xy_inlined) simp_all
  show "serialize (PAttrs ''S'' [(?F, ?inner)] None) = PDict ?doc"
    by (simp only: serialize_PAttrs attrs_to_dict.simps Let_def loop option.case)
  show "serialize (PAttrs ''S'' [(?F, ?inner)] (Some ?doc)) = PDict ?doc"
    by (simp only: serialize_PAttrs attrs_to_dict.simps Let_def loop option.case)
       (simp add: dict_set_def)
qed

theorem flatten_merges_never_nests_witness:
  "dict_to_attrs ''S''
      [flat_field ''F'' None (TAttrs ''R'' [plain_field ''x'' PNothing False True False,
                                            plain_field ''y'' PNothing False True False])
         PNothing False True False]
      (PDict [(''x'', PInt 1), (''y'', PInt 2)]) PNone False
     = Inr (PAttrs ''S''
         [(flat_field ''F'' None (TAttrs ''R'' [plain_field ''x'' PNothing False True False,
                                               plain_field ''y'' PNothing False True False])
             PNothing False True False,
           PAttrs ''R'' [(plain_field ''x'' PNothing False True False, PInt 1),
                         (plain_field ''y'' PNothing False True False, PInt 2)] None)]
         (Some [(''x'', PInt 1), (''y'', PInt 2)]))
   \<and> serialize (PAttrs ''S''
         [(flat_field ''F'' None (TAttrs ''R'' [plain_field ''x'' PNothing False True False,
                                               plain_field ''y'' PNothing False True False])
             PNothing False True False,
           PAttrs ''R'' [(plain_field ''x'' PNothing False True False, PInt 1),
                         (plain_field ''y'' PNothing False True False, PInt 2)] None)]
         None) = PDict [(''x'', PInt 1), (''y'', PInt 2)]
   \<and> serialize (PAttrs ''S''
         [(flat_field ''F'' None (TAttrs ''R'' [plain_field ''x'' PNothing False True False,
                                               plain_field ''y'' PNothing False True False])
             PNothing False True False,
           PAttrs ''R'' [(plain_field ''x'' PNothing False True False, PInt 1),
                         (plain_field ''y'' PNothing False True False, PInt 2)] None)]
         (Some [(''x'', PInt 1), (''y'', PInt 2)])) = PDict [(''x'', PInt 1), (''y'', PInt 2)]"
  using flatten_merges_never_nests [of None PNothing False True False PNothing False True False
      PNothing False True False PNone]
  by simp

section \<open>Decoding: the unrecognized bucket\<close>


















lemma encode_field_not_flatten:
  assumes "\<not> flatten f"
  shows "encode_field f v nd =
     (if json_key f = [] \<or> (v = PNone \<and> omitempty f) then nd
      else if omitdefault f \<and> py_eq (if v = PNone then default f else v) (default f) then nd
      else dict_set nd (json_key f) (serialize (if v = PNone then default f else v)))"
proof -
  have store: "(case s of
                  PDict d \<Rightarrow> if flatten f then dict_update nd d else dict_set nd k s
                | _ \<Rightarrow> dict_set nd k s) = dict_set nd k s" for s k
    using assms by (cases s) simp_all
  show ?thesis
    by (simp add: encode_field.simps Let_def store)
qed














section \<open>Decoding: a missing required field\<close>

text \<open>
  The rule attrs enforces on a class whose \<^verbatim>\<open>__init__\<close> takes positional arguments: no
  field without a default after a field with one.
\<close>

fun mandatory_first :: "field list \<Rightarrow> bool" where
  "mandatory_first [] = True"
| "mandatory_first (f # fs) =
     ((default f = PNothing \<or> (\<forall>g \<in> set fs. default g \<noteq> PNothing)) \<and> mandatory_first fs)"

lemma init_args_missing:
  "\<exists>f \<in> set fs. default f = PNothing \<and> map_of kwargs (init_name f) = None \<Longrightarrow>
   init_args fs kwargs = None"
  by (induction fs) (auto split: option.splits)

lemma fields_of_no_flatten:
  "\<forall>f \<in> set fs. \<not> flatten f \<Longrightarrow> fields_of fs (Some True) = []"
  by (simp add: fields_of_def)

lemma mandatory_first_hd:
  "mandatory_first fs \<Longrightarrow> \<exists>f \<in> set fs. default f = PNothing \<Longrightarrow>
   find (\<lambda>f. default f = PNothing) fs = Some (hd fs)"
  by (cases fs) auto

text \<open>
  C4 (as amended). For a schema without flattened fields that has a field without a
  default, decoding \<open>{}\<close> fails with the \<open>SerializerError\<close> ``Missing value for required key
  n in T'', raised from the constructor's \<open>TypeError\<close>, where \<open>n\<close> is the declared name of
  the first field of the schema. Where the schema keeps the fields without a default
  first, that field is the first required field in declaration order.
\<close>

theorem missing_required_field:
  assumes "\<forall>f \<in> set fs. \<not> flatten f" and "\<exists>f \<in> set fs. default f = PNothing"
  shows "dict_to_attrs cn fs (PDict []) dflt False
           = Inl (SerializerError (missing_msg (name (hd fs)) cn) (Some TypeError))
         \<and> (mandatory_first fs \<longrightarrow> find (\<lambda>f. default f = PNothing) fs = Some (hd fs))"
proof -
  from assms(2) obtain f0 fs' where fs: "fs = f0 # fs'" by (cases fs) auto
  have init: "init_args fs [] = None"
    using assms(2) by (intro init_args_missing) simp
  have "dict_to_attrs cn fs (PDict []) dflt False
          = Inl (SerializerError (missing_msg (name (hd fs)) cn) (Some TypeError))"
    unfolding dict_to_attrs.simps
    by (simp add: fields_of_no_flatten [OF assms(1)] attrs_init_def init) (simp add: fs fields_of_def)
  then show ?thesis
    using mandatory_first_hd [OF _ assms(2)] by blast
qed

definition room_id :: field where
  "room_id = Field ''room_id'' None TPlain PNothing False False True False"

definition topic :: field where
  "topic = Field ''topic'' None TPlain PNone False False True False"

theorem missing_required_field_witness:
  "dict_to_attrs ''Room'' [room_id, topic] (PDict []) PNone False
     = Inl (SerializerError ''Missing value for required key room_id in Room'' (Some TypeError))
   \<and> find (\<lambda>f. default f = PNothing) [room_id, topic] = Some room_id"
  using missing_required_field [of "[room_id, topic]" "''Room''" PNone]
  by (simp add: room_id_def topic_def missing_msg_def)

text \<open>
  The error names the declared name of the field, not its wire key: a required field
  \<open>event_id\<close> with the wire key \<open>m.event_id\<close>.
\<close>

definition event_id :: field where
  "event_id = Field ''event_id'' (Some ''m.event_id'') TPlain PNothing False False True False"

theorem missing_field_names_counterexample:
  "dict_to_attrs ''Event'' [event_id] (PDict []) PNone False
     = Inl (SerializerError ''Missing value for required key event_id in Event'' (Some TypeError))
   \<and> json_key event_id = ''m.event_id''
   \<and> dict_to_attrs ''Event'' [event_id] (PDict []) PNone False
     \<noteq> Inl (SerializerError ''Missing value for required key m.event_id in Event'' (Some TypeError))"
proof -
  have "dict_to_attrs ''Event'' [event_id] (PDict []) PNone False
     = Inl (SerializerError ''Missing value for required key event_id in Event'' (Some TypeError))"
    by code_simp
  then show ?thesis
    by (simp add: event_id_def json_key_def)
qed


section \<open>Decoding: fields marked ignore_errors\<close>

lemma try_deserialize_ignored:
  "deserialize cls val dflt = Inl e \<Longrightarrow> e \<noteq> AttributeError \<Longrightarrow>
   try_deserialize cls val dflt True = Inr PNone"
  by (cases e) (simp_all add: try_deserialize.simps)

lemma fields_table_single:
  "\<not> flatten f \<Longrightarrow> fields_table [f] = [(json_key f, f)]"
  by (simp add: fields_table_def fields_of_def dict_of_pairs_def dict_set_def)

text \<open>
  C6 (as amended). Let \<open>f\<close> be a field marked \<open>ignore_errors\<close> whose raw value fails to
  decode against its type with a \<open>SerializerError\<close>, \<open>TypeError\<close>, \<open>ValueError\<close> or
  \<open>KeyError\<close>. The failure is absorbed: the field's decoder returns \<open>None\<close>, the second pass
  stores \<open>None\<close> under the field's name and goes on with the remaining keys. Where the
  name of the field has no leading underscore, the record with that one field decodes to
  the record whose field is \<open>None\<close> (not the declared default). Where it has one, the
  constructor rejects the keyword (its argument is named without the underscore) and the
  decode fails with a \<open>SerializerError\<close> raised from that \<open>TypeError\<close>.
\<close>

theorem ignore_errors_absorbs:
  assumes "ignore_errors f" and "deserialize (ftype f) val (default f) = Inl e"
    and "e \<noteq> AttributeError"
  shows "try_deserialize (ftype f) val (default f) (ignore_errors f) = Inr PNone
       \<and> (map_of (fields_table fs) key = Some f \<longrightarrow>
            keyed_items fs ((key, val) # rest) (new_items, unrecognized)
              = keyed_items fs rest (dict_set new_items (name f) PNone, unrecognized))
       \<and> (\<not> flatten f \<and> init_name f = name f \<longrightarrow>
            dict_to_attrs cn [f] (PDict [(json_key f, val)]) dflt default_if_empty
              = Inr (PAttrs cn [(f, PNone)] None))
       \<and> (\<not> flatten f \<and> init_name f \<noteq> name f \<longrightarrow>
            dict_to_attrs cn [f] (PDict [(json_key f, val)]) dflt default_if_empty
              = Inl (SerializerError
                  (if json_key f = name f then unknown_msg else missing_msg (name f) cn)
                  (Some TypeError)))"
proof -
  have absorbed: "try_deserialize (ftype f) val (default f) (ignore_errors f) = Inr PNone"
    using assms by (simp add: try_deserialize_ignored)
  have loop: "keyed_items fs ((key, val) # rest) (new_items, unrecognized)
              = keyed_items fs rest (dict_set new_items (name f) PNone, unrecognized)"
    if "map_of (fields_table fs) key = Some f"
    using that absorbed by simp
  have whole: "dict_to_attrs cn [f] (PDict [(json_key f, val)]) dflt default_if_empty
              = Inr (PAttrs cn [(f, PNone)] None)"
    if "\<not> flatten f" "init_name f = name f"
    unfolding dict_to_attrs.simps
    using that absorbed
    by (simp add: fields_of_def fields_table_single dict_set_def attrs_init_def)
  have rejected: "dict_to_attrs cn [f] (PDict [(json_key f, val)]) dflt default_if_empty
              = Inl (SerializerError
                  (if json_key f = name f then unknown_msg else missing_msg (name f) cn)
                  (Some TypeError))"
    if "\<not> flatten f" "init_name f \<noteq> name f"
    unfolding dict_to_attrs.simps
    using that absorbed
    by (simp add: fields_of_def fields_table_single dict_set_def attrs_init_def)
  show ?thesis
    using absorbed loop whole rejected by blast
qed

definition msg_format :: field where
  "msg_format = Field ''format'' None (TEnum ''Format'' [''org.matrix.custom.html''])
                  (PEnum ''Format'' ''org.matrix.custom.html'') False True True False"

theorem ignore_errors_absorbs_witness:
  "deserialize (ftype msg_format) (PStr ''bogus'') (default msg_format)
     = Inl (SerializerError [] (Some (EnumValueError (PStr ''bogus'') ''Format'')))
   \<and> try_deserialize (ftype msg_format) (PStr ''bogus'') (default msg_format) True = Inr PNone
   \<and> dict_to_attrs ''Message'' [msg_format] (PDict [(''format'', PStr ''bogus'')]) PNone False
     = Inr (PAttrs ''Message'' [(msg_format, PNone)] None)"
proof -
  have fail: "deserialize (ftype msg_format) (PStr ''bogus'') (default msg_format)
     = Inl (SerializerError [] (Some (EnumValueError (PStr ''bogus'') ''Format'')))"
    by code_simp
  have ign: "ignore_errors msg_format"
    by (simp add: msg_format_def)
  from ignore_errors_absorbs [OF ign fail, of "[]" "[]" "[]" "[]" "[]" "''Message''" PNone False]
  show ?thesis
    using fail by (simp add: msg_format_def json_key_def init_name_def)
qed

text \<open>
  The field does not fall back to its declared default: the default of \<open>format\<close> is the
  member \<open>org.matrix.custom.html\<close>, and the decoded record holds \<open>None\<close>.
\<close>

theorem ignore_errors_default_counterexample:
  "dict_to_attrs ''Message'' [msg_format] (PDict [(''format'', PStr ''bogus'')]) PNone False
     = Inr (PAttrs ''Message'' [(msg_format, PNone)] None)
   \<and> default msg_format = PEnum ''Format'' ''org.matrix.custom.html''
   \<and> dict_to_attrs ''Message'' [msg_format] (PDict [(''format'', PStr ''bogus'')]) PNone False
     \<noteq> Inr (PAttrs ''Message'' [(msg_format, default msg_format)] None)"
proof -
  have "dict_to_attrs ''Message'' [msg_format] (PDict [(''format'', PStr ''bogus'')]) PNone False
     = Inr (PAttrs ''Message'' [(msg_format, PNone)] None)"
    by code_simp
  then show ?thesis
    by (simp add: msg_format_def)
qed

section \<open>Decoding against a mapping type\<close>

text \<open>
  C9. The claim does not hold of the code. Decoding the map \<open>{"ab": 1}\<close> against
  \<^verbatim>\<open>Dict[str, int]\<close> raises \<^verbatim>\<open>TypeError\<close> at line 159, where the builtin \<^verbatim>\<open>getattr\<close> is given
  a keyword argument; no mapping is produced. (What line 160 would do with the map is
  modelled after the theorem.)
\<close>

theorem dict_decode_fails_on_map:
  "deserialize (TDict TPlain TPlain) (PDict [(''ab'', PInt 1)]) PNone = Inl TypeError"
  by (simp add: deserialize_containers)

text \<open>
  Line 160 on its own, as it would run on a map if line 159 returned the type arguments:
  \<^verbatim>\<open>{key: _deserialize(val_cls, item) for key, item in value}\<close>. Iterating a dict gives its
  keys, not its items, so the target \<^verbatim>\<open>key, item\<close> unpacks each key, a string, into its
  characters: a key of two characters gives a key and an item of one character each, any
  other key is a \<^verbatim>\<open>ValueError\<close>. The values of the map are never read.
\<close>

fun unpack_key :: "string \<Rightarrow> pyerr + string \<times> pyval" where
  "unpack_key [c1, c2] = Inr ([c1], PStr [c2])"
| "unpack_key s = Inl ValueError"

fun dict_comprehension :: "ty \<Rightarrow> pydict \<Rightarrow> pydict \<Rightarrow> pyerr + pydict" where
  "dict_comprehension val_cls [] acc = Inr acc"
| "dict_comprehension val_cls ((k, v) # rest) acc =
     (case unpack_key k of
        Inl e \<Rightarrow> Inl e
      | Inr (key, item) \<Rightarrow>
         (case deserialize val_cls item PNone of
            Inl e \<Rightarrow> Inl e
          | Inr w \<Rightarrow> dict_comprehension val_cls rest (dict_set acc key w)))"

lemma dict_comprehension_unpacks_keys:
  "dict_comprehension TPlain [(''ab'', PInt 1)] [] = Inr [(''a'', PStr ''b'')]"
  "dict_comprehension TPlain [(''room'', PInt 1)] [] = Inl ValueError"
  by (simp_all add: deserialize_TPlain dict_set_def)

section \<open>Defaults in a store\<close>

text \<open>
  Whether two decoded values share an object is a question about references, so
  \<^verbatim>\<open>_safe_default\<close> is modelled a second time, over a store. A value is an immutable scalar
  or a reference to a mutable object; the store is the list of the objects allocated so
  far, and the address of an object is its index. \<^verbatim>\<open>copy.copy\<close> allocates one new object
  that holds the same items as the original: the items themselves are not copied.
\<close>

datatype ref_val = RNone | RBool bool | RInt int | RStr string | RRef nat

datatype obj = OList "ref_val list" | ODict "(string \<times> ref_val) list"

type_synonym store = "obj list"

fun immutable_ref :: "ref_val \<Rightarrow> bool" where
  "immutable_ref (RRef a) = False"
| "immutable_ref v = True"

text \<open>A reference always points into the store; a dangling one is returned as it is.\<close>

fun copy_copy_ref :: "ref_val \<Rightarrow> store \<Rightarrow> ref_val \<times> store" where
  "copy_copy_ref (RRef a) st = (if a < length st then (RRef (length st), st @ [st ! a]) else (RRef a, st))"
| "copy_copy_ref v st = (v, st)"

definition safe_default_ref :: "ref_val \<Rightarrow> store \<Rightarrow> ref_val \<times> store" where
  "safe_default_ref val st = (if immutable_ref val then (val, st) else copy_copy_ref val st)"

text \<open>Lines 139-140 of \<^verbatim>\<open>_deserialize\<close>: the value to decode is \<^verbatim>\<open>None\<close>.\<close>

definition deserialize_null :: "ref_val \<Rightarrow> store \<Rightarrow> ref_val \<times> store" where
  "deserialize_null dflt st = safe_default_ref dflt st"

text \<open>\<^verbatim>\<open>xs.append(x)\<close> on the list at an address; anything else is left alone.\<close>

definition list_append :: "nat \<Rightarrow> ref_val \<Rightarrow> store \<Rightarrow> store" where
  "list_append a x st =
     (if a < length st then
        (case st ! a of OList xs \<Rightarrow> st[a := OList (xs @ [x])] | ODict d \<Rightarrow> st)
      else st)"

text \<open>The value a reference stands for, read through the store to a given depth.\<close>

fun snapshot :: "nat \<Rightarrow> store \<Rightarrow> ref_val \<Rightarrow> pyval option"
  and snapshot_list :: "nat \<Rightarrow> store \<Rightarrow> ref_val list \<Rightarrow> pyval list option"
  and snapshot_items :: "nat \<Rightarrow> store \<Rightarrow> (string \<times> ref_val) list \<Rightarrow> pydict option"
where
  "snapshot n st RNone = Some PNone"
| "snapshot n st (RBool b) = Some (PBool b)"
| "snapshot n st (RInt i) = Some (PInt i)"
| "snapshot n st (RStr s) = Some (PStr s)"
| "snapshot 0 st (RRef a) = None"
| "snapshot (Suc n) st (RRef a) =
     (if a < length st then
        (case st ! a of
           OList xs \<Rightarrow> map_option PList (snapshot_list n st xs)
         | ODict d \<Rightarrow> map_option PDict (snapshot_items n st d))
      else None)"
| "snapshot_list n st [] = Some []"
| "snapshot_list n st (x # xs) =
     (case snapshot n st x of
        None \<Rightarrow> None
      | Some v \<Rightarrow> map_option ((#) v) (snapshot_list n st xs))"
| "snapshot_items n st [] = Some []"
| "snapshot_items n st ((k, x) # d) =
     (case snapshot n st x of
        None \<Rightarrow> None
      | Some v \<Rightarrow> map_option ((#) (k, v)) (snapshot_items n st d))"


text \<open>
  C8 (as amended). Decoding \<open>None\<close> returns a primitive default as it is and leaves the
  store alone. For a default that is a reference to an object, each decode allocates one
  new object holding the items of the default's object (a shallow copy). Two decodes in a
  row return two different references, both different from the default's, and replacing
  the object behind one of them changes neither the object behind the other nor the
  default's object.
\<close>

theorem null_decode_copies_top_level:
  "(immutable_ref dflt \<longrightarrow> deserialize_null dflt st = (dflt, st))
   \<and> (a < length st \<longrightarrow>
        deserialize_null (RRef a) st = (RRef (length st), st @ [st ! a])
        \<and> deserialize_null (RRef a) (st @ [st ! a])
            = (RRef (Suc (length st)), st @ [st ! a, st ! a])
        \<and> a \<noteq> length st \<and> a \<noteq> Suc (length st)
        \<and> ((st @ [st ! a, st ! a])[length st := ob]) ! Suc (length st) = st ! a
        \<and> ((st @ [st ! a, st ! a])[length st := ob]) ! a = st ! a
        \<and> ((st @ [st ! a, st ! a])[Suc (length st) := ob]) ! length st = st ! a
        \<and> ((st @ [st ! a, st ! a])[Suc (length st) := ob]) ! a = st ! a)"
proof (intro conjI impI)
  assume "immutable_ref dflt"
  then show "deserialize_null dflt st = (dflt, st)"
    by (simp add: deserialize_null_def safe_default_ref_def)
next
  assume a: "a < length st"
  show "deserialize_null (RRef a) st = (RRef (length st), st @ [st ! a])"
    using a by (simp add: deserialize_null_def safe_default_ref_def)
  show "deserialize_null (RRef a) (st @ [st ! a]) = (RRef (Suc (length st)), st @ [st ! a, st ! a])"
    using a by (simp add: deserialize_null_def safe_default_ref_def nth_append)
  show "a \<noteq> length st" "a \<noteq> Suc (length st)"
    using a by simp_all
  show "((st @ [st ! a, st ! a])[length st := ob]) ! Suc (length st) = st ! a"
    by (simp add: nth_append list_update_append)
  show "((st @ [st ! a, st ! a])[length st := ob]) ! a = st ! a"
    using a by (simp add: nth_append list_update_append)
  show "((st @ [st ! a, st ! a])[Suc (length st) := ob]) ! length st = st ! a"
    by (simp add: nth_append list_update_append)
  show "((st @ [st ! a, st ! a])[Suc (length st) := ob]) ! a = st ! a"
    using a by (simp add: nth_append list_update_append)
qed

theorem null_decode_copies_top_level_witness:
  "deserialize_null (RInt 7) [OList []] = (RInt 7, [OList []])
   \<and> deserialize_null (RRef 0) [OList [RInt 1]] = (RRef 1, [OList [RInt 1], OList [RInt 1]])
   \<and> deserialize_null (RRef 0) [OList [RInt 1], OList [RInt 1]]
       = (RRef 2, [OList [RInt 1], OList [RInt 1], OList [RInt 1]])
   \<and> ([OList [RInt 1], OList [RInt 1], OList [RInt 1]][1 := OList [RInt 1, RInt 9]]) ! 2 = OList [RInt 1]
   \<and> ([OList [RInt 1], OList [RInt 1], OList [RInt 1]][1 := OList [RInt 1, RInt 9]]) ! 0 = OList [RInt 1]"
  using null_decode_copies_top_level [of "RInt 7" "[OList []]" 0 "OList [RInt 1, RInt 9]"]
        null_decode_copies_top_level [of "RInt 7" "[OList [RInt 1]]" 0 "OList [RInt 1, RInt 9]"]
  by simp

text \<open>
  The copy is not deep. The default is the list \<open>[[1]]\<close>: object 0 is the inner list,
  object 1 the outer one. Two decodes of \<open>None\<close> return the references 2 and 3. Appending 9
  to the inner list of the first decoded value changes the value behind the second
  reference and the default from \<open>[[1]]\<close> to \<open>[[1, 9]]\<close>.
\<close>

definition nested_default :: store where
  "nested_default = [OList [RInt 1], OList [RRef 0]]"

definition twice_decoded :: store where
  "twice_decoded = [OList [RInt 1], OList [RRef 0], OList [RRef 0], OList [RRef 0]]"

theorem shared_nested_default_counterexample:
  "deserialize_null (RRef 1) nested_default = (RRef 2, nested_default @ [OList [RRef 0]])
   \<and> deserialize_null (RRef 1) (nested_default @ [OList [RRef 0]]) = (RRef 3, twice_decoded)
   \<and> twice_decoded ! 2 = OList [RRef 0]
   \<and> snapshot 2 twice_decoded (RRef 3) = Some (PList [PList [PInt 1]])
   \<and> snapshot 2 (list_append 0 (RInt 9) twice_decoded) (RRef 3) = Some (PList [PList [PInt 1, PInt 9]])
   \<and> snapshot 2 (list_append 0 (RInt 9) twice_decoded) (RRef 1) = Some (PList [PList [PInt 1, PInt 9]])"
  by (simp add: deserialize_null_def safe_default_ref_def nested_default_def twice_decoded_def
      list_append_def numeral_2_eq_2 numeral_3_eq_3)

section \<open>Round trip of a record\<close>

text \<open>
  \<open>scalar\<close>: a \<^verbatim>\<open>bool\<close>, \<^verbatim>\<open>int\<close> or \<^verbatim>\<open>str\<close>. \<open>json_value\<close>: a value of the document model, that
  is \<^verbatim>\<open>None\<close>, a scalar, a list of such values or a dictionary of them (a dictionary has
  each key once).
\<close>

fun scalar :: "pyval \<Rightarrow> bool" where
  "scalar (PBool b) = True"
| "scalar (PInt i) = True"
| "scalar (PStr s) = True"
| "scalar v = False"

fun json_value :: "pyval \<Rightarrow> bool" where
  "json_value PNone = True"
| "json_value (PBool b) = True"
| "json_value (PInt i) = True"
| "json_value (PStr s) = True"
| "json_value (PList xs) = (\<forall>x \<in> set xs. json_value x)"
| "json_value (PDict d) = (distinct (map fst d) \<and> (\<forall>kv \<in> set d. json_value (snd kv)))"
| "json_value v = False"

text \<open>\<open>skipped (f, v)\<close>: the encoder leaves the field \<open>f\<close> with value \<open>v\<close> out (lines 174-180).\<close>

definition skipped :: "field \<times> pyval \<Rightarrow> bool" where
  "skipped fv =
     (case fv of (f, v) \<Rightarrow>
        (v = PNone \<and> omitempty f) \<or>
        (omitdefault f \<and> py_eq (if v = PNone then default f else v) (default f)))"

text \<open>
  \<open>leaves fvs\<close>: the fields of a record that are written under their own wire key, in the
  order of the encoder: a field that is not flattened, and in place of a flattened field
  the leaves of the record it holds.
\<close>

function leaves :: "(field \<times> pyval) list \<Rightarrow> (field \<times> pyval) list" where
  "leaves [] = []"
| "leaves ((f, v) # fvs) =
     (if flatten f then (case v of PAttrs cn gvs u \<Rightarrow> leaves gvs | _ \<Rightarrow> []) else [(f, v)])
     @ leaves fvs"
  by pat_completeness auto
termination
  by (relation "measure (size_list (size_prod size size))") auto

text \<open>
  The values the round trip is proved for.
  \<^item> \<open>roundtrip_value t v\<close>: the value \<open>v\<close> of declared type \<open>t\<close> is a JSON value other than
    \<^verbatim>\<open>None\<close> under \<^verbatim>\<open>Any\<close>, a scalar under a plain class or a \<^verbatim>\<open>Union\<close>, a member of the
    declared enumeration, a value of \<open>T\<close> under \<^verbatim>\<open>Optional[T]\<close>, or an instance of the
    declared record type without unrecognized bucket, whose fields have distinct names,
    whose leaves have distinct wire keys, whose fields all satisfy \<open>roundtrip_field\<close>, and
    which has a flattened field or a field that is encoded (a nested record that decodes
    to no item at all is replaced by the default of its field).
  \<^item> \<open>roundtrip_field (f, v)\<close>: the field has a wire key and a name without leading
    underscore. A flattened field holds a record that \<open>omitdefault\<close> does not leave out and
    that satisfies \<open>roundtrip_value\<close> at the type of the field. For a field that is not
    flattened, a value \<^verbatim>\<open>None\<close> goes with the default \<^verbatim>\<open>None\<close>; a value that \<open>omitdefault\<close>
    leaves out is one the default is equal to; any other value satisfies
    \<open>roundtrip_value\<close> at the type of the field.
  \<open>TOptional\<close> and \<open>TUnion\<close> are typing objects of Python 3.6 only; no value satisfies
  \<open>roundtrip_value\<close> at \<open>TAlias\<close>, \<open>TList\<close>, \<open>TSet\<close> or \<open>TDict\<close>.
\<close>

function roundtrip_value :: "ty \<Rightarrow> pyval \<Rightarrow> bool"
  and roundtrip_field :: "field \<times> pyval \<Rightarrow> bool"
  and roundtrip_fields :: "(field \<times> pyval) list \<Rightarrow> bool"
where
  "roundtrip_value t v =
     (case t of
        TAny \<Rightarrow> json_value v \<and> v \<noteq> PNone
      | TPlain \<Rightarrow> scalar v
      | TUnion \<Rightarrow> scalar v
      | TOptional t' \<Rightarrow> roundtrip_value t' v
      | TEnum cn vals \<Rightarrow> (case v of PEnum c s \<Rightarrow> c = cn \<and> s \<in> set vals | _ \<Rightarrow> False)
      | TAttrs cn fs \<Rightarrow>
          (case v of
             PAttrs c fvs u \<Rightarrow>
               c = cn \<and> u = None \<and> map fst fvs = fs \<and> roundtrip_fields fvs
               \<and> distinct (map (json_key \<circ> fst) (leaves fvs)) \<and> distinct (map (name \<circ> fst) fvs)
               \<and> (\<exists>fv \<in> set fvs. flatten (fst fv) \<or> \<not> skipped fv)
           | _ \<Rightarrow> False)
      | _ \<Rightarrow> False)"
| "roundtrip_field (f, v) =
     (json_key f \<noteq> [] \<and> init_name f = name f \<and>
      (if flatten f then
         (case v of
            PAttrs cn gvs u \<Rightarrow>
              \<not> (omitdefault f \<and> py_eq v (default f)) \<and> roundtrip_value (ftype f) v
          | _ \<Rightarrow> False)
       else if v = PNone then default f = PNone
       else if omitdefault f \<and> py_eq v (default f) then py_eq (default f) v \<and> v \<noteq> PNothing
       else roundtrip_value (ftype f) v))"
| "roundtrip_fields [] = True"
| "roundtrip_fields (fv # fvs) = (roundtrip_field fv \<and> roundtrip_fields fvs)"
  by pat_completeness auto
termination
proof (relation "measures
   [\<lambda>x. case x of
        Inl (t, v) \<Rightarrow> size v
      | Inr (Inl (f, v)) \<Rightarrow> size v
      | Inr (Inr fvs) \<Rightarrow> size_list (size_prod size size) fvs,
    \<lambda>x. case x of
        Inl (t, v) \<Rightarrow> size t
      | Inr (Inl (f, v)) \<Rightarrow> size f
      | Inr (Inr fvs) \<Rightarrow> 0]", goal_cases)
  case 1 show ?case by simp
next
  case 2 then show ?case by simp
next
  case 3 then show ?case by simp
next
  case 4 then show ?case by (simp add: size_ftype_lt)
next
  case 5 then show ?case by (simp add: size_ftype_lt)
next
  case 6 show ?case by (auto split: prod.splits)
next
  case 7 then show ?case by simp
qed

declare roundtrip_value.simps [simp del]

text \<open>\<open>encoded_items lvs\<close>: the items the encoder writes for the leaves \<open>lvs\<close>.\<close>

definition encoded_items :: "(field \<times> pyval) list \<Rightarrow> pydict" where
  "encoded_items lvs = map (\<lambda>(f, v). (json_key f, serialize v)) (filter (Not \<circ> skipped) lvs)"

lemma serialize_scalar: "scalar v \<Longrightarrow> serialize v = v"
  by (cases v) (simp_all add: serialize.simps)

lemma scalar_not_None: "scalar v \<Longrightarrow> v \<noteq> PNone"
  by (cases v) simp_all

lemma scalar_py_eq: "scalar v \<Longrightarrow> py_eq v v"
  by (cases v) (simp_all add: py_eq.simps)

lemma deserialize_scalar:
  "scalar v \<Longrightarrow> t \<in> {TPlain, TUnion} \<Longrightarrow> deserialize t v d = Inr v"
  by (cases v) (auto simp: deserialize.simps)

lemma serialize_list_id: "\<forall>x \<in> set xs. serialize x = x \<Longrightarrow> serialize_list xs = xs"
  by (induction xs) simp_all

lemma serialize_items_id:
  "distinct (map fst d) \<Longrightarrow> fst ` set d \<inter> fst ` set acc = {} \<Longrightarrow>
   \<forall>kv \<in> set d. serialize (snd kv) = snd kv \<Longrightarrow> serialize_items d acc = acc @ d"
proof (induction d arbitrary: acc)
  case Nil
  then show ?case by simp
next
  case (Cons p d)
  obtain k v where p: "p = (k, v)" by (cases p)
  have fresh: "k \<notin> fst ` set acc" using Cons.prems(2) by (auto simp: p)
  have "serialize_items d (acc @ [(k, v)]) = (acc @ [(k, v)]) @ d"
    using Cons.prems by (intro Cons.IH) (auto simp: p)
  then show ?case
    using Cons.prems(3) by (simp add: p dict_set_fresh [OF fresh])
qed

lemma json_serialize: "json_value v \<Longrightarrow> serialize v = v"
proof (induction v rule: json_value.induct)
  case (5 xs)
  then show ?case by (simp add: serialize.simps serialize_list_id)
next
  case (6 d)
  then have "serialize_items d [] = [] @ d"
    by (intro serialize_items_id) simp_all
  then show ?case by (simp add: serialize.simps)
qed (simp_all add: serialize.simps)

lemma py_eq_list_refl: "\<forall>x \<in> set xs. py_eq x x \<Longrightarrow> py_eq_list xs xs"
  by (induction xs) simp_all

lemma py_eq_items_refl:
  "set d \<subseteq> set e \<Longrightarrow> distinct (map fst e) \<Longrightarrow> \<forall>kv \<in> set d. py_eq (snd kv) (snd kv) \<Longrightarrow>
   py_eq_items d e"
proof (induction d)
  case Nil
  then show ?case by simp
next
  case (Cons p d)
  obtain k v where p: "p = (k, v)" by (cases p)
  have "(k, v) \<in> set e" using Cons.prems(1) by (simp add: p)
  with Cons.prems(2) have "map_of e k = Some v" by (rule map_of_is_SomeI)
  then show ?case
    using Cons by (simp add: p)
qed

lemma json_py_eq: "json_value v \<Longrightarrow> py_eq v v"
proof (induction v rule: json_value.induct)
  case (5 xs)
  then show ?case by (simp add: py_eq.simps py_eq_list_refl)
next
  case (6 d)
  then have "py_eq_items d d"
    by (intro py_eq_items_refl) simp_all
  then show ?case by (simp add: py_eq.simps)
qed (simp_all add: py_eq.simps)

lemma encoded_items_append: "encoded_items (xs @ ys) = encoded_items xs @ encoded_items ys"
  by (simp add: encoded_items_def)

lemma keys_encoded_items:
  "fst ` set (encoded_items lvs) \<subseteq> (json_key \<circ> fst) ` set lvs"
  by (force simp: encoded_items_def)

lemma distinct_encoded_items:
  "distinct (map (json_key \<circ> fst) lvs) \<Longrightarrow> distinct (map fst (encoded_items lvs))"
proof -
  assume "distinct (map (json_key \<circ> fst) lvs)"
  then have "distinct (map (json_key \<circ> fst) (filter (Not \<circ> skipped) lvs))"
    by (rule distinct_map_filter)
  moreover have "map fst (encoded_items lvs) = map (json_key \<circ> fst) (filter (Not \<circ> skipped) lvs)"
    by (simp add: encoded_items_def comp_def case_prod_unfold)
  ultimately show ?thesis by simp
qed

lemma leaves_append: "leaves (xs @ ys) = leaves xs @ leaves ys"
  by (induction xs rule: leaves.induct) simp_all

lemma leaves_Cons: "leaves (fv # fvs) = leaves [fv] @ leaves fvs"
  by (cases fv) simp

lemma leaves_flat: "flatten f \<Longrightarrow> leaves [(f, PAttrs cn gvs u)] = leaves gvs"
  by simp

lemma leaves_plain: "\<not> flatten f \<Longrightarrow> leaves [(f, v)] = [(f, v)]"
  by simp

declare leaves.simps(2) [simp del]

text \<open>The encoding of a field and of a record, over the leaves.\<close>

lemma encode_plain_field:
  assumes "roundtrip_field (f, v)" and "\<not> flatten f"
  shows "encode_field f v nd =
           (if skipped (f, v) then nd else dict_set nd (json_key f) (serialize v))"
proof -
  from assms have jk: "json_key f \<noteq> []" and none: "v = PNone \<Longrightarrow> default f = PNone"
    by simp_all
  have "(if v = PNone then default f else v) = v"
    using none by simp
  then show ?thesis
    using jk by (simp add: encode_field_not_flatten [OF assms(2)] skipped_def)
qed

lemma encode_flat_field:
  assumes "roundtrip_field (f, PAttrs cn gvs u)" and "flatten f"
  shows "encode_field f (PAttrs cn gvs u) nd = dict_update nd (attrs_to_dict gvs u)"
  using assms by (auto simp: encode_field.simps Let_def serialize_PAttrs)

lemma codec_encode:
  "roundtrip_value t v \<longrightarrow>
     (\<forall>cn fvs u. v = PAttrs cn fvs u \<longrightarrow>
        u = None \<and> fields_loop fvs [] = encoded_items (leaves fvs)
        \<and> distinct (map (json_key \<circ> fst) (leaves fvs)))"
  "roundtrip_field fv \<longrightarrow>
     (\<forall>nd. distinct (map (json_key \<circ> fst) (leaves [fv])) \<longrightarrow>
           fst ` set nd \<inter> (json_key \<circ> fst) ` set (leaves [fv]) = {} \<longrightarrow>
           encode_field (fst fv) (snd fv) nd = nd @ encoded_items (leaves [fv]))"
  "roundtrip_fields fvs \<longrightarrow>
     (\<forall>nd. distinct (map (json_key \<circ> fst) (leaves fvs)) \<longrightarrow>
           fst ` set nd \<inter> (json_key \<circ> fst) ` set (leaves fvs) = {} \<longrightarrow>
           fields_loop fvs nd = nd @ encoded_items (leaves fvs))"
proof (induction t v and fv and fvs rule: roundtrip_value_roundtrip_field_roundtrip_fields.induct)
  case (1 t v)
  show ?case
  proof (intro impI allI)
    fix cn fvs u
    assume rv: "roundtrip_value t v" and v: "v = PAttrs cn fvs u"
    show "u = None \<and> fields_loop fvs [] = encoded_items (leaves fvs)
          \<and> distinct (map (json_key \<circ> fst) (leaves fvs))"
    proof (cases t)
      case (TAttrs c fs)
      from rv have rf: "roundtrip_fields fvs" and u: "u = None"
        and dj: "distinct (map (json_key \<circ> fst) (leaves fvs))"
        by (simp_all add: TAttrs v roundtrip_value.simps)
      from "1.IH"(1) [OF TAttrs v] rf dj have "fields_loop fvs [] = [] @ encoded_items (leaves fvs)"
        by (simp add: comp_def)
      with u dj show ?thesis by simp
    next
      case (TOptional t')
      with rv have "roundtrip_value t' v" by (simp add: roundtrip_value.simps)
      with "1.IH"(2) [OF TOptional] v show ?thesis by (simp add: comp_def)
    qed (use rv v in \<open>simp_all add: roundtrip_value.simps\<close>)
  qed
next
  case (2 f v)
  show ?case
  proof (intro impI allI)
    fix nd :: pydict
    assume rt: "roundtrip_field (f, v)"
      and dj: "distinct (map (json_key \<circ> fst) (leaves [(f, v)]))"
      and fresh: "fst ` set nd \<inter> (json_key \<circ> fst) ` set (leaves [(f, v)]) = {}"
    show "encode_field (fst (f, v)) (snd (f, v)) nd = nd @ encoded_items (leaves [(f, v)])"
    proof (cases "flatten f")
      case True
      with rt obtain cn gvs u where v: "v = PAttrs cn gvs u" and rv: "roundtrip_value (ftype f) v"
        by (cases v) simp_all
      from "2.IH"(1) [OF True v] rv v
      have u: "u = None" and loop: "fields_loop gvs [] = encoded_items (leaves gvs)"
        by simp_all
      have lv: "leaves [(f, v)] = leaves gvs" using True by (simp add: v leaves_flat)
      have "distinct (map fst (encoded_items (leaves gvs)))"
        using dj unfolding lv by (rule distinct_encoded_items)
      moreover have "fst ` set (encoded_items (leaves gvs)) \<inter> fst ` set nd = {}"
        using fresh keys_encoded_items [of "leaves gvs"] unfolding lv by blast
      ultimately have "dict_update nd (encoded_items (leaves gvs)) = nd @ encoded_items (leaves gvs)"
        by (rule dict_update_fresh)
      moreover have "encode_field f v nd = dict_update nd (attrs_to_dict gvs u)"
        using rt True unfolding v by (rule encode_flat_field)
      ultimately have "encode_field f v nd = nd @ encoded_items (leaves gvs)"
        by (simp add: u attrs_to_dict.simps loop)
      then show ?thesis
        unfolding lv by simp
    next
      case False
      have "json_key f \<notin> fst ` set nd" using fresh False by (auto simp: leaves_plain)
      then show ?thesis
        using False
        by (simp add: encode_plain_field [OF rt False] dict_set_fresh encoded_items_def leaves_plain)
    qed
  qed
next
  case 3
  show ?case by (simp add: encoded_items_def)
next
  case (4 fv fvs)
  show ?case
  proof (intro impI allI)
    fix nd :: pydict
    assume rf: "roundtrip_fields (fv # fvs)"
      and dj: "distinct (map (json_key \<circ> fst) (leaves (fv # fvs)))"
      and fresh: "fst ` set nd \<inter> (json_key \<circ> fst) ` set (leaves (fv # fvs)) = {}"
    obtain f v where fv: "fv = (f, v)" by (cases fv)
    have lv: "leaves (fv # fvs) = leaves [fv] @ leaves fvs" by (rule leaves_Cons)
    define nd' where "nd' = encode_field f v nd"
    have rt: "roundtrip_field fv" and rest: "roundtrip_fields fvs"
      using rf by simp_all
    have d1: "distinct (map (json_key \<circ> fst) (leaves [fv]))"
      using dj unfolding lv by simp
    have f1: "fst ` set nd \<inter> (json_key \<circ> fst) ` set (leaves [fv]) = {}"
      using fresh unfolding lv by (simp only: set_append image_Un) blast
    have nd': "nd' = nd @ encoded_items (leaves [fv])"
      using "4.IH"(1) [rule_format, OF rt d1 f1] by (simp add: nd'_def fv)
    have f2: "fst ` set nd' \<inter> (json_key \<circ> fst) ` set (leaves fvs) = {}"
    proof -
      have "fst ` set (encoded_items (leaves [fv])) \<inter> (json_key \<circ> fst) ` set (leaves fvs) = {}"
        using dj keys_encoded_items [of "leaves [fv]"] unfolding lv by (simp only: map_append distinct_append set_map) blast
      moreover have "fst ` set nd \<inter> (json_key \<circ> fst) ` set (leaves fvs) = {}"
        using fresh unfolding lv by (simp only: set_append image_Un) blast
      ultimately show ?thesis
        unfolding nd' by (simp only: set_append image_Un) blast
    qed
    have d2: "distinct (map (json_key \<circ> fst) (leaves fvs))"
      using dj unfolding lv by simp
    have "fields_loop fvs nd' = nd' @ encoded_items (leaves fvs)"
      by (rule "4.IH"(2) [rule_format, OF rest d2 f2])
    then have "fields_loop fvs (encode_field f v nd) = nd @ encoded_items (leaves [fv]) @ encoded_items (leaves fvs)"
      unfolding nd' [symmetric] by (simp add: nd'_def) (simp add: nd' [unfolded nd'_def])
    then show "fields_loop (fv # fvs) nd = nd @ encoded_items (leaves (fv # fvs))"
      unfolding lv by (simp add: fv encoded_items_append)
  qed
qed

text \<open>\<open>decoded_as r v\<close>: the decoder returned a value that is \<^verbatim>\<open>==\<close> to \<open>v\<close>.\<close>

definition decoded_as :: "pyerr + pyval \<Rightarrow> pyval \<Rightarrow> bool" where
  "decoded_as r v = (case r of Inr w \<Rightarrow> py_eq w v | Inl e \<Rightarrow> False)"

lemma decoded_asD: "decoded_as r v \<Longrightarrow> \<exists>w. r = Inr w \<and> py_eq w v"
  by (cases r) (simp_all add: decoded_as_def)

lemma decoded_asI: "r = Inr w \<Longrightarrow> py_eq w v \<Longrightarrow> decoded_as r v"
  by (simp add: decoded_as_def)

text \<open>
  \<open>holds doc lvs\<close>: the document has, under the wire key of every leaf that is encoded, the
  encoding of its value, and has no wire key of a leaf that is left out.
  \<open>field_decodes doc (f, v)\<close>: decoding the document restores the field: a flattened field
  decodes from the whole document, a field that is left out is absent from the document
  and has a default equal to its value, any other field decodes from the item under its
  wire key.
\<close>

definition holds :: "pydict \<Rightarrow> (field \<times> pyval) list \<Rightarrow> bool" where
  "holds doc lvs =
     (\<forall>fv \<in> set lvs.
        if skipped fv then json_key (fst fv) \<notin> fst ` set doc
        else map_of doc (json_key (fst fv)) = Some (serialize (snd fv)))"

definition field_decodes :: "pydict \<Rightarrow> field \<times> pyval \<Rightarrow> bool" where
  "field_decodes doc fv =
     (case fv of (f, v) \<Rightarrow>
        if flatten f then
          decoded_as (try_deserialize (ftype f) (PDict doc) (default f) (ignore_errors f)) v
        else if skipped (f, v) then
          json_key f \<notin> fst ` set doc \<and> default f \<noteq> PNothing \<and> py_eq (default f) v
        else
          map_of doc (json_key f) = Some (serialize v)
          \<and> decoded_as (try_deserialize (ftype f) (serialize v) (default f) (ignore_errors f)) v)"

lemma holds_encoded:
  assumes "distinct (map (json_key \<circ> fst) lvs)"
  shows "holds (encoded_items lvs) lvs"
  unfolding holds_def
proof
  fix fv
  assume mem: "fv \<in> set lvs"
  have inj: "inj_on (json_key \<circ> fst) (set lvs)"
    using assms by (simp add: distinct_map)
  show "if skipped fv then json_key (fst fv) \<notin> fst ` set (encoded_items lvs)
        else map_of (encoded_items lvs) (json_key (fst fv)) = Some (serialize (snd fv))"
  proof (cases "skipped fv")
    case True
    have "json_key (fst fv) \<notin> fst ` set (encoded_items lvs)"
    proof
      assume "json_key (fst fv) \<in> fst ` set (encoded_items lvs)"
      then obtain gw where gw: "gw \<in> set lvs" "\<not> skipped gw" "json_key (fst gw) = json_key (fst fv)"
        by (auto simp: encoded_items_def)
      from gw(3) have same: "(json_key \<circ> fst) gw = (json_key \<circ> fst) fv" by simp
      from inj same gw(1) mem have "gw = fv" by (rule inj_onD)
      with gw(2) True show False by simp
    qed
    with True show ?thesis by simp
  next
    case False
    with mem have "(json_key (fst fv), serialize (snd fv)) \<in> set (encoded_items lvs)"
      by (force simp: encoded_items_def)
    with distinct_encoded_items [OF assms]
    have "map_of (encoded_items lvs) (json_key (fst fv)) = Some (serialize (snd fv))"
      by (rule map_of_is_SomeI)
    with False show ?thesis by simp
  qed
qed

lemma holds_subset: "holds doc lvs \<Longrightarrow> set lvs' \<subseteq> set lvs \<Longrightarrow> holds doc lvs'"
  unfolding holds_def by blast

lemma plain_leaf: "fv \<in> set fvs \<Longrightarrow> \<not> flatten (fst fv) \<Longrightarrow> fv \<in> set (leaves fvs)"
proof (induction fvs)
  case Nil
  then show ?case by simp
next
  case (Cons p fvs)
  show ?case
  proof (cases "fv = p")
    case True
    with Cons.prems(2) have "leaves [p] = [fv]" by (cases p) (simp add: leaves_plain)
    then show ?thesis by (subst leaves_Cons) simp
  next
    case False
    with Cons have "fv \<in> set (leaves fvs)" by simp
    then show ?thesis by (subst leaves_Cons) simp
  qed
qed

lemma field_leaves: "fv \<in> set fvs \<Longrightarrow> set (leaves [fv]) \<subseteq> set (leaves fvs)"
proof (induction fvs)
  case Nil
  then show ?case by simp
next
  case (Cons p fvs)
  show ?case
  proof (cases "fv = p")
    case True
    then show ?thesis by (subst (2) leaves_Cons) simp
  next
    case False
    with Cons have "set (leaves [fv]) \<subseteq> set (leaves fvs)" by simp
    then show ?thesis by (subst (2) leaves_Cons) auto
  qed
qed

lemma fields_table_SomeD:
  assumes "map_of (fields_table fs) k = Some f"
  shows "f \<in> set fs \<and> \<not> flatten f \<and> json_key f = k"
proof -
  from assms have "(k, f) \<in> set (fields_table fs)" by (rule map_of_SomeD)
  then have "(k, f) \<in> set (fields_of fs (Some False))"
    using set_dict_update_subset [of "[]" "fields_of fs (Some False)"]
    by (auto simp: fields_table_def dict_of_pairs_def)
  then show ?thesis by (auto simp: fields_of_def)
qed

lemma fields_table_plain:
  assumes "distinct (map json_key (filter (\<lambda>f. \<not> flatten f) fs))" and "f \<in> set fs" and "\<not> flatten f"
  shows "map_of (fields_table fs) (json_key f) = Some f"
proof -
  let ?ps = "fields_of fs (Some False)"
  have keys: "map fst ?ps = map json_key (filter (\<lambda>f. \<not> flatten f) fs)"
    by (simp add: fields_of_def comp_def)
  have dist: "distinct (map fst ?ps)"
    unfolding keys using assms(1) .
  have "(json_key f, f) \<in> set ?ps"
    using assms(2,3) by (simp add: fields_of_def)
  with dist have "map_of ?ps (json_key f) = Some f"
    by (rule map_of_is_SomeI)
  then show ?thesis
    by (simp add: fields_table_def dict_of_pairs_def map_of_dict_update_distinct [OF dist])
qed

lemma plain_keys_distinct:
  "distinct (map (json_key \<circ> fst) (leaves fvs)) \<Longrightarrow>
   distinct (map json_key (filter (\<lambda>f. \<not> flatten f) (map fst fvs)))"
proof (induction fvs)
  case Nil
  then show ?case by simp
next
  case (Cons p fvs)
  obtain f v where p: "p = (f, v)" by (cases p)
  have lv: "leaves (p # fvs) = leaves [p] @ leaves fvs" by (rule leaves_Cons)
  have rest: "distinct (map json_key (filter (\<lambda>f. \<not> flatten f) (map fst fvs)))"
    using Cons unfolding lv by simp
  show ?case
  proof (cases "flatten f")
    case True
    with rest show ?thesis by (simp add: p)
  next
    case False
    have "leaves (p # fvs) = (f, v) # leaves fvs"
      unfolding lv using False by (simp add: p leaves_plain)
    with Cons.prems have "json_key f \<notin> (json_key \<circ> fst) ` set (leaves fvs)"
      by simp
    moreover have "g \<in> set (map fst fvs) \<Longrightarrow> \<not> flatten g \<Longrightarrow> json_key g \<in> (json_key \<circ> fst) ` set (leaves fvs)" for g
    proof -
      assume "g \<in> set (map fst fvs)" and nf: "\<not> flatten g"
      then obtain w where "(g, w) \<in> set fvs" by auto
      with nf have "(g, w) \<in> set (leaves fvs)" by (intro plain_leaf) simp_all
      then show ?thesis by force
    qed
    ultimately have "json_key f \<notin> json_key ` {g \<in> set (map fst fvs). \<not> flatten g}"
      by (auto simp del: set_map)
    with rest False show ?thesis by (simp add: p)
  qed
qed

text \<open>The two passes of the decoder and the constructor, for an invariant \<open>G\<close> of the items.\<close>

lemma flatten_items_good:
  assumes "\<forall>f \<in> set ffs. \<exists>w. try_deserialize (ftype f) data (default f) (ignore_errors f) = Inr w
                              \<and> G (name f) w"
    and "\<forall>nw \<in> set ni. G (fst nw) (snd nw)"
  shows "\<exists>ni'. flatten_items ffs data ni = Inr ni' \<and> (\<forall>nw \<in> set ni'. G (fst nw) (snd nw))
               \<and> fst ` set ni' = fst ` set ni \<union> name ` set ffs"
  using assms
proof (induction ffs arbitrary: ni)
  case Nil
  then show ?case by simp
next
  case (Cons f ffs)
  from Cons.prems(1) obtain w
    where w: "try_deserialize (ftype f) data (default f) (ignore_errors f) = Inr w" "G (name f) w"
    by auto
  have good: "\<forall>nw \<in> set (dict_set ni (name f) w). G (fst nw) (snd nw)"
    using set_dict_set_subset [of ni "name f" w] Cons.prems(2) w(2) by auto
  from Cons.prems(1) have rest: "\<forall>f \<in> set ffs. \<exists>w.
        try_deserialize (ftype f) data (default f) (ignore_errors f) = Inr w \<and> G (name f) w"
    by simp
  from Cons.IH [OF rest good] obtain ni'
    where "flatten_items ffs data (dict_set ni (name f) w) = Inr ni'"
      and "\<forall>nw \<in> set ni'. G (fst nw) (snd nw)"
      and "fst ` set ni' = fst ` set (dict_set ni (name f) w) \<union> name ` set ffs"
    by blast
  then show ?case
    by (simp add: w(1) keys_dict_set)
qed

lemma keyed_items_good:
  assumes "\<forall>kv \<in> set items. \<forall>f. map_of (fields_table fs) (fst kv) = Some f \<longrightarrow>
             (\<exists>w. try_deserialize (ftype f) (snd kv) (default f) (ignore_errors f) = Inr w
                  \<and> G (name f) w)"
    and "\<forall>nw \<in> set ni. G (fst nw) (snd nw)"
  shows "\<exists>ni' u'. keyed_items fs items (ni, u) = Inr (ni', u')
            \<and> (\<forall>nw \<in> set ni'. G (fst nw) (snd nw))
            \<and> fst ` set ni \<subseteq> fst ` set ni'
            \<and> (\<forall>kv \<in> set items. \<forall>f. map_of (fields_table fs) (fst kv) = Some f \<longrightarrow>
                  name f \<in> fst ` set ni')"
  using assms
proof (induction items arbitrary: ni u)
  case Nil
  then show ?case by simp
next
  case (Cons p items)
  obtain k val where p: "p = (k, val)" by (cases p)
  from Cons.prems(1) have rest: "\<forall>kv \<in> set items. \<forall>f. map_of (fields_table fs) (fst kv) = Some f \<longrightarrow>
             (\<exists>w. try_deserialize (ftype f) (snd kv) (default f) (ignore_errors f) = Inr w
                  \<and> G (name f) w)"
    by simp
  show ?case
  proof (cases "map_of (fields_table fs) k")
    case None
    from Cons.IH [OF rest Cons.prems(2), of "dict_set u k val"] obtain ni' u'
      where "keyed_items fs items (ni, dict_set u k val) = Inr (ni', u')"
        and "\<forall>nw \<in> set ni'. G (fst nw) (snd nw)"
        and "fst ` set ni \<subseteq> fst ` set ni'"
        and "\<forall>kv \<in> set items. \<forall>f. map_of (fields_table fs) (fst kv) = Some f \<longrightarrow>
                  name f \<in> fst ` set ni'"
      by blast
    then show ?thesis
      by (simp add: p None)
  next
    case (Some f)
    from Cons.prems(1) Some obtain w
      where w: "try_deserialize (ftype f) val (default f) (ignore_errors f) = Inr w" "G (name f) w"
      by (auto simp: p)
    have good: "\<forall>nw \<in> set (dict_set ni (name f) w). G (fst nw) (snd nw)"
      using set_dict_set_subset [of ni "name f" w] Cons.prems(2) w(2) by auto
    from Cons.IH [OF rest good, of u] obtain ni' u'
      where res: "keyed_items fs items (dict_set ni (name f) w, u) = Inr (ni', u')"
        and g: "\<forall>nw \<in> set ni'. G (fst nw) (snd nw)"
        and sub: "fst ` set (dict_set ni (name f) w) \<subseteq> fst ` set ni'"
        and pres: "\<forall>kv \<in> set items. \<forall>f. map_of (fields_table fs) (fst kv) = Some f \<longrightarrow>
                  name f \<in> fst ` set ni'"
      by blast
    from sub have "name f \<in> fst ` set ni'" and "fst ` set ni \<subseteq> fst ` set ni'"
      by (auto simp: keys_dict_set)
    with res g pres show ?thesis
      by (simp add: p Some w(1))
  qed
qed

lemma init_args_good:
  assumes "\<forall>fv \<in> set gvs. map_of kw (init_name (fst fv)) = None \<longrightarrow>
             default (fst fv) \<noteq> PNothing \<and> py_eq (default (fst fv)) (snd fv)"
    and "\<forall>fv \<in> set gvs. \<forall>w. map_of kw (init_name (fst fv)) = Some w \<longrightarrow> py_eq w (snd fv)"
  shows "\<exists>fws. init_args (map fst gvs) kw = Some fws \<and> py_eq_attrs fws gvs"
  using assms
proof (induction gvs)
  case Nil
  then show ?case by simp
next
  case (Cons p gvs)
  obtain f v where p: "p = (f, v)" by (cases p)
  from Cons obtain fws where rest: "init_args (map fst gvs) kw = Some fws" "py_eq_attrs fws gvs"
    by auto
  show ?case
  proof (cases "map_of kw (init_name f)")
    case None
    with Cons.prems(1) have "default f \<noteq> PNothing" "py_eq (default f) v"
      by (simp_all add: p)
    with None rest show ?thesis by (simp add: p)
  next
    case (Some w)
    with Cons.prems(2) have "py_eq w v" by (simp add: p)
    with Some rest show ?thesis by (simp add: p)
  qed
qed

lemma record_decodes:
  assumes dec: "\<forall>fv \<in> set fvs. field_decodes doc fv"
    and init: "\<forall>fv \<in> set fvs. init_name (fst fv) = name (fst fv)"
    and dd: "distinct (map fst doc)"
    and dn: "distinct (map (name \<circ> fst) fvs)"
    and dj: "distinct (map json_key (filter (\<lambda>f. \<not> flatten f) (map fst fvs)))"
    and ne: "default_if_empty \<Longrightarrow> \<exists>fv \<in> set fvs. flatten (fst fv) \<or> \<not> skipped fv"
  shows "decoded_as (dict_to_attrs cn (map fst fvs) (PDict doc) dflt default_if_empty)
           (PAttrs cn fvs None)"
proof -
  let ?fs = "map fst fvs"
  define G where "G n w = (\<exists>fv \<in> set fvs. name (fst fv) = n \<and> py_eq w (snd fv))" for n w
  have inj: "inj_on (name \<circ> fst) (set fvs)"
    using dn by (simp add: distinct_map)
  have val: "py_eq w v" if mem: "(f, v) \<in> set fvs" and g: "G (name f) w" for f v w
  proof -
    from g obtain fv where fv: "fv \<in> set fvs" "name (fst fv) = name f" "py_eq w (snd fv)"
      unfolding G_def by blast
    from fv(2) have same: "(name \<circ> fst) fv = (name \<circ> fst) (f, v)" by simp
    from inj same fv(1) mem have "fv = (f, v)" by (rule inj_onD)
    with fv(3) show ?thesis by simp
  qed
  have flat_ok: "\<forall>f \<in> set (map snd (fields_of ?fs (Some True))).
      \<exists>w. try_deserialize (ftype f) (PDict doc) (default f) (ignore_errors f) = Inr w \<and> G (name f) w"
  proof
    fix f
    assume "f \<in> set (map snd (fields_of ?fs (Some True)))"
    then have f: "f \<in> set ?fs" "flatten f" by (auto simp: fields_of_def)
    then obtain v where fv: "(f, v) \<in> set fvs" by auto
    with dec f(2)
    have "decoded_as (try_deserialize (ftype f) (PDict doc) (default f) (ignore_errors f)) v"
      by (auto simp: field_decodes_def)
    then obtain w where "try_deserialize (ftype f) (PDict doc) (default f) (ignore_errors f) = Inr w"
      and "py_eq w v"
      by (auto dest: decoded_asD)
    with fv show "\<exists>w. try_deserialize (ftype f) (PDict doc) (default f) (ignore_errors f) = Inr w
                      \<and> G (name f) w"
      unfolding G_def by force
  qed
  have "\<forall>nw \<in> set ([] :: pydict). G (fst nw) (snd nw)" by simp
  from flatten_items_good [of "map snd (fields_of ?fs (Some True))" "PDict doc" G "[]", OF flat_ok this]
  obtain ni0 where flat: "flatten_items (map snd (fields_of ?fs (Some True))) (PDict doc) [] = Inr ni0"
    and g0: "\<forall>nw \<in> set ni0. G (fst nw) (snd nw)"
    and k0: "fst ` set ni0 = name ` set (map snd (fields_of ?fs (Some True)))"
    by auto
  have keyed_ok: "\<forall>kv \<in> set doc. \<forall>f. map_of (fields_table ?fs) (fst kv) = Some f \<longrightarrow>
      (\<exists>w. try_deserialize (ftype f) (snd kv) (default f) (ignore_errors f) = Inr w \<and> G (name f) w)"
  proof (intro ballI allI impI)
    fix kv f
    assume kv: "kv \<in> set doc" and look: "map_of (fields_table ?fs) (fst kv) = Some f"
    from fields_table_SomeD [OF look]
    have f: "f \<in> set ?fs" "\<not> flatten f" "json_key f = fst kv" by simp_all
    obtain v where fv: "(f, v) \<in> set fvs" using f(1) by auto
    have key: "json_key f \<in> fst ` set doc" using kv f(3) by force
    from dec fv have "field_decodes doc (f, v)" by blast
    with f(2) key have m: "map_of doc (json_key f) = Some (serialize v)"
      and d: "decoded_as (try_deserialize (ftype f) (serialize v) (default f) (ignore_errors f)) v"
      by (auto simp: field_decodes_def split: if_splits)
    have "(fst kv, snd kv) \<in> set doc" using kv by simp
    with dd have "map_of doc (fst kv) = Some (snd kv)" by (rule map_of_is_SomeI)
    with m f(3) have raw: "snd kv = serialize v" by simp
    from d obtain w where "try_deserialize (ftype f) (serialize v) (default f) (ignore_errors f) = Inr w"
      and "py_eq w v"
      by (auto dest: decoded_asD)
    with fv raw show "\<exists>w. try_deserialize (ftype f) (snd kv) (default f) (ignore_errors f) = Inr w
                          \<and> G (name f) w"
      unfolding G_def by force
  qed
  from keyed_items_good [of doc ?fs G ni0 "[]", OF keyed_ok g0]
  obtain ni u where keyed: "keyed_items ?fs doc (ni0, []) = Inr (ni, u)"
    and g: "\<forall>nw \<in> set ni. G (fst nw) (snd nw)"
    and sub: "fst ` set ni0 \<subseteq> fst ` set ni"
    and pres: "\<forall>kv \<in> set doc. \<forall>f. map_of (fields_table ?fs) (fst kv) = Some f \<longrightarrow>
                 name f \<in> fst ` set ni"
    by blast
  have present: "name f \<in> fst ` set ni"
    if mem: "(f, v) \<in> set fvs" and enc: "flatten f \<or> \<not> skipped (f, v)" for f v
  proof (cases "flatten f")
    case True
    with mem have "name f \<in> name ` set (map snd (fields_of ?fs (Some True)))"
      by (force simp: fields_of_def)
    with k0 sub show ?thesis by blast
  next
    case False
    with enc have ns: "\<not> skipped (f, v)" by simp
    from dec mem have "field_decodes doc (f, v)" by blast
    with False ns have "map_of doc (json_key f) = Some (serialize v)"
      by (simp add: field_decodes_def)
    then have kv: "(json_key f, serialize v) \<in> set doc" by (rule map_of_SomeD)
    have "f \<in> set ?fs" using mem by force
    with dj False have "map_of (fields_table ?fs) (json_key f) = Some f"
      by (intro fields_table_plain)
    with pres kv show ?thesis by force
  qed
  have absent: "default f \<noteq> PNothing \<and> py_eq (default f) v"
    if mem: "(f, v) \<in> set fvs" and no: "name f \<notin> fst ` set ni" for f v
  proof -
    from present [OF mem] no have nf: "\<not> flatten f" and sk: "skipped (f, v)" by auto
    from dec mem have "field_decodes doc (f, v)" by blast
    with nf sk show ?thesis by (simp add: field_decodes_def)
  qed
  have args1: "\<forall>fv \<in> set fvs. map_of ni (init_name (fst fv)) = None \<longrightarrow>
             default (fst fv) \<noteq> PNothing \<and> py_eq (default (fst fv)) (snd fv)"
  proof (intro ballI impI)
    fix fv
    assume mem: "fv \<in> set fvs" and none: "map_of ni (init_name (fst fv)) = None"
    from init mem have "init_name (fst fv) = name (fst fv)" by blast
    with none have "name (fst fv) \<notin> fst ` set ni" by (simp add: map_of_eq_None_iff)
    with absent [of "fst fv" "snd fv"] mem
    show "default (fst fv) \<noteq> PNothing \<and> py_eq (default (fst fv)) (snd fv)" by simp
  qed
  have args2: "\<forall>fv \<in> set fvs. \<forall>w. map_of ni (init_name (fst fv)) = Some w \<longrightarrow> py_eq w (snd fv)"
  proof (intro ballI allI impI)
    fix fv w
    assume mem: "fv \<in> set fvs" and some: "map_of ni (init_name (fst fv)) = Some w"
    from init mem have "init_name (fst fv) = name (fst fv)" by blast
    with some have "(name (fst fv), w) \<in> set ni" by (simp add: map_of_SomeD)
    with g have "G (name (fst fv)) w" by force
    with val [of "fst fv" "snd fv" w] mem show "py_eq w (snd fv)" by simp
  qed
  from init_args_good [OF args1 args2]
  obtain fws where fws: "init_args ?fs ni = Some fws" "py_eq_attrs fws fvs" by blast
  have known: "list_all (\<lambda>k. k \<in> set (map init_name ?fs)) (map fst ni)"
  proof -
    have "k \<in> set (map init_name ?fs)" if "k \<in> fst ` set ni" for k
    proof -
      from that obtain w where "(k, w) \<in> set ni" by force
      with g have "G k w" by force
      then obtain fv where fv: "fv \<in> set fvs" "name (fst fv) = k" unfolding G_def by blast
      with init have "init_name (fst fv) = k" by simp
      with fv(1) show ?thesis by force
    qed
    then show ?thesis by (simp add: list_all_iff)
  qed
  have obj: "attrs_init cn ?fs ni = Inr (PAttrs cn fws None)"
    using known fws(1) by (simp add: attrs_init_def)
  have nonempty: "ni \<noteq> []" if "default_if_empty"
  proof -
    from ne [OF that] obtain fv where "fv \<in> set fvs" "flatten (fst fv) \<or> \<not> skipped fv" by blast
    with present [of "fst fv" "snd fv"] have "name (fst fv) \<in> fst ` set ni" by simp
    then show ?thesis by auto
  qed
  have data: "(if truthy (PDict doc) then PDict doc else PDict []) = PDict doc"
    by simp
  have eq1: "py_eq (PAttrs cn fws None) (PAttrs cn fvs None)"
    and eq2: "py_eq (PAttrs cn fws (Some u)) (PAttrs cn fvs None)"
    using fws(2) by (simp_all add: py_eq.simps)
  have "dict_to_attrs cn ?fs (PDict doc) dflt default_if_empty
          = Inr (if length u > 0 then PAttrs cn fws (Some u) else PAttrs cn fws None)"
  proof (cases default_if_empty)
    case True
    then have "ni \<noteq> []" by (rule nonempty)
    then show ?thesis
      unfolding dict_to_attrs.simps data by (simp add: flat keyed obj)
  next
    case False
    then show ?thesis
      unfolding dict_to_attrs.simps data by (simp add: flat keyed obj)
  qed
  then show ?thesis
    using eq1 eq2 by (simp add: decoded_as_def)
qed

lemma decoded_as_try:
  "decoded_as (deserialize t x d) v \<Longrightarrow> decoded_as (try_deserialize t x d ign) v"
  by (auto dest!: decoded_asD intro: decoded_asI try_deserialize_Inr)

lemma skipped_default:
  assumes "roundtrip_field (f, v)" and "\<not> flatten f" and "skipped (f, v)"
  shows "default f \<noteq> PNothing \<and> py_eq (default f) v"
proof (cases "v = PNone")
  case True
  with assms(1,2) show ?thesis by (simp add: py_eq.simps)
next
  case False
  with assms(3) have "omitdefault f \<and> py_eq v (default f)" by (simp add: skipped_def)
  with assms(1,2) False have eq: "py_eq (default f) v" and v: "v \<noteq> PNothing" by simp_all
  have "default f \<noteq> PNothing"
  proof
    assume "default f = PNothing"
    with eq have "v = PNothing" by (simp add: py_eq.simps)
    with v show False by simp
  qed
  with eq show ?thesis by simp
qed

lemma fields_decode:
  assumes rt: "\<forall>fv \<in> set fvs. roundtrip_field fv"
    and plain: "\<forall>fv \<in> set fvs. \<not> flatten (fst fv) \<longrightarrow> \<not> skipped fv \<longrightarrow>
        decoded_as (try_deserialize (ftype (fst fv)) (serialize (snd fv)) (default (fst fv))
                      (ignore_errors (fst fv))) (snd fv)"
    and flat: "\<forall>fv \<in> set fvs. flatten (fst fv) \<longrightarrow>
        (\<forall>doc. distinct (map fst doc) \<longrightarrow> holds doc (leaves [fv]) \<longrightarrow>
           decoded_as (try_deserialize (ftype (fst fv)) (PDict doc) (default (fst fv))
                         (ignore_errors (fst fv))) (snd fv))"
    and dd: "distinct (map fst doc)"
    and h: "holds doc (leaves fvs)"
  shows "\<forall>fv \<in> set fvs. field_decodes doc fv"
proof
  fix fv
  assume mem: "fv \<in> set fvs"
  obtain f v where fv: "fv = (f, v)" by (cases fv)
  show "field_decodes doc fv"
  proof (cases "flatten f")
    case True
    have "holds doc (leaves [fv])"
      using h field_leaves [OF mem] by (rule holds_subset)
    with flat mem True dd show ?thesis
      by (auto simp: fv field_decodes_def)
  next
    case False
    with mem have leaf: "(f, v) \<in> set (leaves fvs)"
      unfolding fv by (intro plain_leaf) simp_all
    show ?thesis
    proof (cases "skipped (f, v)")
      case True
      from rt mem have "roundtrip_field (f, v)" unfolding fv by blast
      from h leaf True have "json_key f \<notin> fst ` set doc"
        unfolding holds_def by force
      with skipped_default [OF \<open>roundtrip_field (f, v)\<close> False True] True False show ?thesis
        by (simp add: fv field_decodes_def)
    next
      case ns: False
      from h leaf ns have "map_of doc (json_key f) = Some (serialize v)"
        unfolding holds_def by force
      with plain mem False ns show ?thesis
        by (auto simp: fv field_decodes_def)
    qed
  qed
qed

lemma serialize_record:
  "roundtrip_value t (PAttrs cn fvs u) \<Longrightarrow>
   serialize (PAttrs cn fvs u) = PDict (encoded_items (leaves fvs))"
  using codec_encode(1) [of t "PAttrs cn fvs u"]
  by (simp add: serialize_PAttrs attrs_to_dict.simps)

lemma codec_roundtrip:
  "roundtrip_value t v \<longrightarrow>
     (\<forall>d. decoded_as (deserialize t (serialize v) d) v)
     \<and> (\<forall>cn fvs u doc d. v = PAttrs cn fvs u \<longrightarrow> distinct (map fst doc) \<longrightarrow>
           holds doc (leaves fvs) \<longrightarrow> decoded_as (deserialize t (PDict doc) d) v)"
  "roundtrip_field fv \<longrightarrow>
     (\<not> flatten (fst fv) \<longrightarrow> \<not> skipped fv \<longrightarrow>
        decoded_as (try_deserialize (ftype (fst fv)) (serialize (snd fv)) (default (fst fv))
                      (ignore_errors (fst fv))) (snd fv))
     \<and> (flatten (fst fv) \<longrightarrow>
        (\<forall>doc. distinct (map fst doc) \<longrightarrow> holds doc (leaves [fv]) \<longrightarrow>
           decoded_as (try_deserialize (ftype (fst fv)) (PDict doc) (default (fst fv))
                         (ignore_errors (fst fv))) (snd fv)))"
  "roundtrip_fields fvs \<longrightarrow>
     (\<forall>fv \<in> set fvs.
        (\<not> flatten (fst fv) \<longrightarrow> \<not> skipped fv \<longrightarrow>
           decoded_as (try_deserialize (ftype (fst fv)) (serialize (snd fv)) (default (fst fv))
                         (ignore_errors (fst fv))) (snd fv))
        \<and> (flatten (fst fv) \<longrightarrow>
           (\<forall>doc. distinct (map fst doc) \<longrightarrow> holds doc (leaves [fv]) \<longrightarrow>
              decoded_as (try_deserialize (ftype (fst fv)) (PDict doc) (default (fst fv))
                            (ignore_errors (fst fv))) (snd fv))))"
proof (induction t v and fv and fvs rule: roundtrip_value_roundtrip_field_roundtrip_fields.induct)
  case (1 t v)
  show ?case
  proof (intro impI)
    assume rv: "roundtrip_value t v"
    show "(\<forall>d. decoded_as (deserialize t (serialize v) d) v)
          \<and> (\<forall>cn fvs u doc d. v = PAttrs cn fvs u \<longrightarrow> distinct (map fst doc) \<longrightarrow>
                holds doc (leaves fvs) \<longrightarrow> decoded_as (deserialize t (PDict doc) d) v)"
    proof (cases t)
      case (TAttrs c fs)
      from rv obtain fvs where v: "v = PAttrs c fvs None" and fs: "map fst fvs = fs"
        and rf: "roundtrip_fields fvs"
        and dj: "distinct (map (json_key \<circ> fst) (leaves fvs))"
        and dn: "distinct (map (name \<circ> fst) fvs)"
        and ne: "\<exists>fv \<in> set fvs. flatten (fst fv) \<or> \<not> skipped fv"
        unfolding TAttrs by (cases v) (auto simp: roundtrip_value.simps)
      have rt: "\<forall>fv \<in> set fvs. roundtrip_field fv"
        using rf by (induction fvs) simp_all
      from "1.IH"(1) [OF TAttrs v] rf
      have plain: "\<forall>fv \<in> set fvs. \<not> flatten (fst fv) \<longrightarrow> \<not> skipped fv \<longrightarrow>
          decoded_as (try_deserialize (ftype (fst fv)) (serialize (snd fv)) (default (fst fv))
                        (ignore_errors (fst fv))) (snd fv)"
        and flat: "\<forall>fv \<in> set fvs. flatten (fst fv) \<longrightarrow>
          (\<forall>doc. distinct (map fst doc) \<longrightarrow> holds doc (leaves [fv]) \<longrightarrow>
             decoded_as (try_deserialize (ftype (fst fv)) (PDict doc) (default (fst fv))
                           (ignore_errors (fst fv))) (snd fv))"
        by blast+
      have init: "\<forall>fv \<in> set fvs. init_name (fst fv) = name (fst fv)"
        using rt by auto
      have docs: "decoded_as (deserialize t (PDict doc) d) v"
        if dd: "distinct (map fst doc)" and h: "holds doc (leaves fvs)" for doc d
      proof -
        have "\<forall>fv \<in> set fvs. field_decodes doc fv"
          using rt plain flat dd h by (rule fields_decode)
        then have "decoded_as (dict_to_attrs c (map fst fvs) (PDict doc) d True) (PAttrs c fvs None)"
          using init dd dn plain_keys_distinct [OF dj] ne by (rule record_decodes)
        then show ?thesis
          by (simp add: TAttrs v fs deserialize_TAttrs)
      qed
      have enc: "serialize v = PDict (encoded_items (leaves fvs))"
        using rv unfolding v by (rule serialize_record)
      have "decoded_as (deserialize t (serialize v) d) v" for d
        unfolding enc using distinct_encoded_items [OF dj] holds_encoded [OF dj] by (rule docs)
      with docs show ?thesis
        by (auto simp: v)
    next
      case TAny
      with rv have j: "json_value v" and nn: "v \<noteq> PNone" by (simp_all add: roundtrip_value.simps)
      from j nn show ?thesis
        by (auto simp: TAny json_serialize deserialize_TAny decoded_as_def json_py_eq)
    next
      case (TOptional t')
      with rv have "roundtrip_value t' v" by (simp add: roundtrip_value.simps)
      with "1.IH"(2) [OF TOptional] show ?thesis
        by (simp add: TOptional deserialize_TOptional)
    next
      case TUnion
      with rv have sc: "scalar v" by (simp add: roundtrip_value.simps)
      then show ?thesis
        by (auto simp: TUnion serialize_scalar deserialize_scalar decoded_as_def scalar_py_eq)
    next
      case (TEnum cn vals)
      with rv show ?thesis
        by (cases v)
           (simp_all add: roundtrip_value.simps serialize.simps deserialize_TEnum
             enum_deserialize_def enum_lookup_def decoded_as_def py_eq.simps)
    next
      case TPlain
      with rv have sc: "scalar v" by (simp add: roundtrip_value.simps)
      then show ?thesis
        by (auto simp: TPlain serialize_scalar deserialize_scalar decoded_as_def scalar_py_eq)
    qed (use rv in \<open>simp_all add: roundtrip_value.simps\<close>)
  qed
next
  case (2 f v)
  show ?case
  proof (intro impI conjI allI)
    assume rt: "roundtrip_field (f, v)" and nf: "\<not> flatten (fst (f, v))" and ns: "\<not> skipped (f, v)"
    from nf have nf': "\<not> flatten f" by simp
    show "decoded_as (try_deserialize (ftype (fst (f, v))) (serialize (snd (f, v)))
             (default (fst (f, v))) (ignore_errors (fst (f, v)))) (snd (f, v))"
    proof (cases "v = PNone")
      case True
      with rt nf' show ?thesis
        by (simp add: decoded_as_def serialize.simps try_deserialize_Inr safe_default_def
            py_eq.simps)
    next
      case False
      with ns have no: "\<not> (omitdefault f \<and> py_eq v (default f))"
        by (simp add: skipped_def)
      with rt nf' False have "roundtrip_value (ftype f) v" by simp
      with "2.IH"(2) [OF nf' False no]
      have "decoded_as (deserialize (ftype f) (serialize v) (default f)) v" by simp
      then show ?thesis
        by (simp add: decoded_as_try)
    qed
  next
    fix doc :: pydict
    assume rt: "roundtrip_field (f, v)" and fl: "flatten (fst (f, v))"
      and dd: "distinct (map fst doc)" and h: "holds doc (leaves [(f, v)])"
    from fl have fl': "flatten f" by simp
    with rt obtain cn gvs u where v: "v = PAttrs cn gvs u" and rv: "roundtrip_value (ftype f) v"
      by (cases v) simp_all
    have "leaves [(f, v)] = leaves gvs"
      using fl' by (simp add: v leaves_flat)
    with h have "holds doc (leaves gvs)" by simp
    with "2.IH"(1) [OF fl' v] rv v dd
    have "decoded_as (deserialize (ftype f) (PDict doc) (default f)) v" by blast
    then show "decoded_as (try_deserialize (ftype (fst (f, v))) (PDict doc)
             (default (fst (f, v))) (ignore_errors (fst (f, v)))) (snd (f, v))"
      by (simp add: decoded_as_try)
  qed
next
  case 3
  show ?case by simp
next
  case (4 fv fvs)
  then show ?case by simp
qed

text \<open>
  C1 (as amended). Let a record without unrecognized bucket have fields of distinct names
  whose leaves have distinct wire keys, each field satisfying \<open>roundtrip_field\<close>. Then its
  encoding decodes, to a record that is \<^verbatim>\<open>==\<close> to it. Flattened fields are covered: the
  records decoded for them, and the record itself, carry the keys they did not read in
  their unrecognized buckets, which \<^verbatim>\<open>==\<close> does not compare.
\<close>

theorem record_roundtrip:
  assumes "\<forall>fv \<in> set fvs. roundtrip_field fv"
    and "distinct (map (json_key \<circ> fst) (leaves fvs))"
    and "distinct (map (name \<circ> fst) fvs)"
  shows "\<exists>w. dict_to_attrs cn (map fst fvs) (serialize (PAttrs cn fvs None)) dflt False = Inr w
             \<and> py_eq w (PAttrs cn fvs None)"
proof -
  have rf: "roundtrip_fields fvs"
    using assms(1) by (induction fvs) simp_all
  let ?doc = "encoded_items (leaves fvs)"
  have "fields_loop fvs [] = [] @ ?doc"
    using codec_encode(3) [of fvs] rf assms(2) by simp
  then have enc: "serialize (PAttrs cn fvs None) = PDict ?doc"
    by (simp add: serialize_PAttrs attrs_to_dict.simps)
  have dd: "distinct (map fst ?doc)"
    using assms(2) by (rule distinct_encoded_items)
  have h: "holds ?doc (leaves fvs)"
    using assms(2) by (rule holds_encoded)
  from codec_roundtrip(3) [of fvs] rf
  have plain: "\<forall>fv \<in> set fvs. \<not> flatten (fst fv) \<longrightarrow> \<not> skipped fv \<longrightarrow>
      decoded_as (try_deserialize (ftype (fst fv)) (serialize (snd fv)) (default (fst fv))
                    (ignore_errors (fst fv))) (snd fv)"
    and flat: "\<forall>fv \<in> set fvs. flatten (fst fv) \<longrightarrow>
      (\<forall>doc. distinct (map fst doc) \<longrightarrow> holds doc (leaves [fv]) \<longrightarrow>
         decoded_as (try_deserialize (ftype (fst fv)) (PDict doc) (default (fst fv))
                       (ignore_errors (fst fv))) (snd fv))"
    by blast+
  have init: "\<forall>fv \<in> set fvs. init_name (fst fv) = name (fst fv)"
    using assms(1) by auto
  have "\<forall>fv \<in> set fvs. field_decodes ?doc fv"
    using assms(1) plain flat dd h by (rule fields_decode)
  then have "decoded_as (dict_to_attrs cn (map fst fvs) (PDict ?doc) dflt False) (PAttrs cn fvs None)"
    using init dd assms(3) plain_keys_distinct [OF assms(2)] by (rule record_decodes) simp
  then show ?thesis
    unfolding enc by (rule decoded_asD)
qed

text \<open>
  A message with a required string, an enumeration member, an absent string, a nested
  record under an overridden wire key, a flattened record and a JSON value.
\<close>

definition msg_body :: field where
  "msg_body = Field ''body'' None TPlain PNothing False False True False"

definition msg_type :: field where
  "msg_type = Field ''msgtype'' None (TEnum ''MessageType'' [''m.text'', ''m.notice''])
                PNothing False False True False"

definition msg_html :: field where
  "msg_html = Field ''formatted_body'' None TPlain PNone False False True False"

definition rel_event :: field where
  "rel_event = Field ''event_id'' None TPlain PNothing False False True False"

definition msg_relates :: field where
  "msg_relates = Field ''relates_to'' (Some ''m.relates_to'')
                   (TAttrs ''RelatesTo'' [rel_event]) PNone False False True False"

definition info_size :: field where
  "info_size = Field ''size'' None TPlain PNone False False True False"

definition info_mime :: field where
  "info_mime = Field ''mimetype'' None TPlain PNone False False True False"

definition msg_info :: field where
  "msg_info = Field ''info'' None (TAttrs ''Info'' [info_size, info_mime])
                PNothing True False True False"

definition msg_extra :: field where
  "msg_extra = Field ''extra'' None TAny PNone False False True False"

definition text_message :: pyval where
  "text_message = PAttrs ''Message''
     [(msg_body, PStr ''hello''), (msg_type, PEnum ''MessageType'' ''m.text''), (msg_html, PNone),
      (msg_relates, PAttrs ''RelatesTo'' [(rel_event, PStr ''$e1'')] None),
      (msg_info, PAttrs ''Info'' [(info_size, PInt 3), (info_mime, PNone)] None),
      (msg_extra, PDict [(''tags'', PList [PStr ''a'', PInt 1]), (''n'', PNone)])]
     None"

definition text_message_doc :: pydict where
  "text_message_doc =
     [(''body'', PStr ''hello''), (''msgtype'', PStr ''m.text''),
      (''m.relates_to'', PDict [(''event_id'', PStr ''$e1'')]),
      (''size'', PInt 3),
      (''extra'', PDict [(''tags'', PList [PStr ''a'', PInt 1]), (''n'', PNone)])]"

definition text_message_decoded :: pyval where
  "text_message_decoded = PAttrs ''Message''
     [(msg_body, PStr ''hello''), (msg_type, PEnum ''MessageType'' ''m.text''), (msg_html, PNone),
      (msg_relates, PAttrs ''RelatesTo'' [(rel_event, PStr ''$e1'')] None),
      (msg_info, PAttrs ''Info'' [(info_size, PInt 3), (info_mime, PNone)]
         (Some [(''body'', PStr ''hello''), (''msgtype'', PStr ''m.text''),
                (''m.relates_to'', PDict [(''event_id'', PStr ''$e1'')]),
                (''extra'', PDict [(''tags'', PList [PStr ''a'', PInt 1]), (''n'', PNone)])])),
      (msg_extra, PDict [(''tags'', PList [PStr ''a'', PInt 1]), (''n'', PNone)])]
     (Some [(''size'', PInt 3)])"

theorem record_roundtrip_witness:
  "serialize text_message = PDict text_message_doc
   \<and> dict_to_attrs ''Message'' [msg_body, msg_type, msg_html, msg_relates, msg_info, msg_extra]
         (serialize text_message) PNone False
       = Inr text_message_decoded
   \<and> py_eq text_message_decoded text_message"
proof -
  let ?fvs = "[(msg_body, PStr ''hello''), (msg_type, PEnum ''MessageType'' ''m.text''),
      (msg_html, PNone),
      (msg_relates, PAttrs ''RelatesTo'' [(rel_event, PStr ''$e1'')] None),
      (msg_info, PAttrs ''Info'' [(info_size, PInt 3), (info_mime, PNone)] None),
      (msg_extra, PDict [(''tags'', PList [PStr ''a'', PInt 1]), (''n'', PNone)])]"
  have enc: "serialize text_message = PDict text_message_doc"
    by code_simp
  have dec: "dict_to_attrs ''Message'' [msg_body, msg_type, msg_html, msg_relates, msg_info, msg_extra]
         (serialize text_message) PNone False = Inr text_message_decoded"
    by code_simp
  have "\<exists>w. dict_to_attrs ''Message'' (map fst ?fvs) (serialize (PAttrs ''Message'' ?fvs None)) PNone False
             = Inr w \<and> py_eq w (PAttrs ''Message'' ?fvs None)"
    by (rule record_roundtrip)
       (simp_all add: roundtrip_value.simps skipped_def py_eq.simps json_key_def init_name_def
          leaves.simps msg_body_def msg_type_def msg_html_def msg_relates_def rel_event_def
          info_size_def info_mime_def msg_info_def msg_extra_def)
  then have "py_eq text_message_decoded text_message"
    using dec by (simp add: text_message_def)
  with enc dec show ?thesis by simp
qed

text \<open>
  The claim as stated fails for a field whose value is \<^verbatim>\<open>None\<close> and whose default is not:
  the field \<open>count\<close> of type \<^verbatim>\<open>Optional[int]\<close> with default 5, with either typing object for
  the type. The record with \<open>count = None\<close> encodes to \<open>{}\<close>, which decodes to the record
  with \<open>count = 5\<close>.
\<close>

definition opt_count :: field where
  "opt_count = Field ''count'' None (TOptional TPlain) (PInt 5) False False True False"

definition alias_count :: field where
  "alias_count = Field ''count'' None TAlias (PInt 5) False False True False"

theorem record_roundtrip_counterexample:
  "serialize (PAttrs ''Counter'' [(opt_count, PNone)] None) = PDict []
   \<and> dict_to_attrs ''Counter'' [opt_count]
         (serialize (PAttrs ''Counter'' [(opt_count, PNone)] None)) PNone False
       = Inr (PAttrs ''Counter'' [(opt_count, PInt 5)] None)
   \<and> \<not> py_eq (PAttrs ''Counter'' [(opt_count, PInt 5)] None)
               (PAttrs ''Counter'' [(opt_count, PNone)] None)
   \<and> serialize (PAttrs ''Counter'' [(alias_count, PNone)] None) = PDict []
   \<and> dict_to_attrs ''Counter'' [alias_count]
         (serialize (PAttrs ''Counter'' [(alias_count, PNone)] None)) PNone False
       = Inr (PAttrs ''Counter'' [(alias_count, PInt 5)] None)
   \<and> \<not> py_eq (PAttrs ''Counter'' [(alias_count, PInt 5)] None)
               (PAttrs ''Counter'' [(alias_count, PNone)] None)"
proof -
  have enc: "serialize (PAttrs ''Counter'' [(opt_count, PNone)] None) = PDict []"
    by code_simp
  have dec: "dict_to_attrs ''Counter'' [opt_count] (PDict []) PNone False
               = Inr (PAttrs ''Counter'' [(opt_count, PInt 5)] None)"
    by code_simp
  have neq: "\<not> py_eq (PAttrs ''Counter'' [(opt_count, PInt 5)] None)
                    (PAttrs ''Counter'' [(opt_count, PNone)] None)"
    by (simp add: py_eq.simps)
  have enc': "serialize (PAttrs ''Counter'' [(alias_count, PNone)] None) = PDict []"
    by code_simp
  have dec': "dict_to_attrs ''Counter'' [alias_count] (PDict []) PNone False
               = Inr (PAttrs ''Counter'' [(alias_count, PInt 5)] None)"
    by code_simp
  have neq': "\<not> py_eq (PAttrs ''Counter'' [(alias_count, PInt 5)] None)
                    (PAttrs ''Counter'' [(alias_count, PNone)] None)"
    by (simp add: py_eq.simps)
  show ?thesis
    using enc dec neq enc' dec' neq' by simp
qed

text \<open>
  With the typing objects of Python 3.7 and later a value other than \<^verbatim>\<open>None\<close> under
  \<^verbatim>\<open>Optional[T]\<close> does not decode at all: the record with \<open>count = 7\<close> encodes to
  \<open>{"count": 7}\<close>, and decoding that fails.
\<close>

lemma optional_alias_rejects_value:
  "v \<noteq> PNone \<Longrightarrow> deserialize TAlias v d = Inl TypeError"
  by (simp add: deserialize.simps)

lemma optional_alias_record_fails:
  "dict_to_attrs ''Counter'' [alias_count]
      (serialize (PAttrs ''Counter'' [(alias_count, PInt 7)] None)) PNone False
     = Inl (SerializerError unknown_msg (Some TypeError))"
  by code_simp

end
